theory Spec2Isabelle
  imports Main "HOL-Library.Word" "HOL-Library.Sublist"
begin

chapter \<open>Wuffs: token tables, AST equality and the C code generator\<close>

text \<open>
  A shallow embedding of three parts of the Wuffs compiler:
  \<^item> package \<open>token\<close> (\<open>lang/token/list.go\<close>): the built-in IDs, the operator form
    tables with their initialisation \<open>addXForms\<close>, the classification predicates and
    the suffix-lexer table;
  \<^item> package \<open>ast\<close>: \<open>Expr.Eq\<close>, \<open>TypeExpr.Eq\<close> and \<open>TypeExpr.EqIgnoringRefinements\<close>;
  \<^item> package \<open>cgen\<close>: \<open>funk.jumpTarget\<close>, \<open>writeFuncImplArgChecks\<close>,
    \<open>writeStatementJump\<close>, \<open>writeStatementRet\<close>, \<open>writeCoroSuspPoint\<close>,
    \<open>writeSuspendibles\<close>, \<open>mightActuallySuspend\<close> and \<open>writeCallSuspendibles\<close>.
\<close>

section \<open>Package token\<close>

subsection \<open>IDs\<close>

text \<open>
  \<open>type ID uint32\<close>. No arithmetic is ever done on an ID (IDs are compared and used as
  array indices only), so an ID is modelled as a natural number; every built-in ID is
  below \<open>0x400\<close>.
\<close>

type_synonym ID = nat

definition nBuiltInSymbolicIDs :: nat where
  "nBuiltInSymbolicIDs = 0x70"

abbreviation IDDot :: ID where "IDDot \<equiv> 0x08"
abbreviation IDDotDot :: ID where "IDDotDot \<equiv> 0x09"
abbreviation IDExclam :: ID where "IDExclam \<equiv> 0x0B"

abbreviation minAssign :: ID where "minAssign \<equiv> 0x10"
abbreviation maxAssign :: ID where "maxAssign \<equiv> 0x1F"

abbreviation IDEq :: ID where "IDEq \<equiv> 0x10"
abbreviation IDPlusEq :: ID where "IDPlusEq \<equiv> 0x11"
abbreviation IDMinusEq :: ID where "IDMinusEq \<equiv> 0x12"
abbreviation IDStarEq :: ID where "IDStarEq \<equiv> 0x13"
abbreviation IDSlashEq :: ID where "IDSlashEq \<equiv> 0x14"
abbreviation IDShiftLEq :: ID where "IDShiftLEq \<equiv> 0x15"
abbreviation IDShiftREq :: ID where "IDShiftREq \<equiv> 0x16"
abbreviation IDAmpEq :: ID where "IDAmpEq \<equiv> 0x17"
abbreviation IDPipeEq :: ID where "IDPipeEq \<equiv> 0x18"
abbreviation IDHatEq :: ID where "IDHatEq \<equiv> 0x19"
abbreviation IDPercentEq :: ID where "IDPercentEq \<equiv> 0x1A"
abbreviation IDTildeModPlusEq :: ID where "IDTildeModPlusEq \<equiv> 0x1B"
abbreviation IDTildeModMinusEq :: ID where "IDTildeModMinusEq \<equiv> 0x1C"
abbreviation IDTildeSatPlusEq :: ID where "IDTildeSatPlusEq \<equiv> 0x1D"
abbreviation IDTildeSatMinusEq :: ID where "IDTildeSatMinusEq \<equiv> 0x1E"
abbreviation IDEqColon :: ID where "IDEqColon \<equiv> 0x1F"

abbreviation minOp :: ID where "minOp \<equiv> 0x20"
abbreviation minAmbiguousOp :: ID where "minAmbiguousOp \<equiv> 0x20"
abbreviation maxAmbiguousOp :: ID where "maxAmbiguousOp \<equiv> 0x3F"
abbreviation minXOp :: ID where "minXOp \<equiv> 0x40"
abbreviation maxXOp :: ID where "maxXOp \<equiv> 0x6F"
abbreviation maxOp :: ID where "maxOp \<equiv> 0x6F"

abbreviation IDPlus :: ID where "IDPlus \<equiv> 0x21"
abbreviation IDMinus :: ID where "IDMinus \<equiv> 0x22"
abbreviation IDStar :: ID where "IDStar \<equiv> 0x23"
abbreviation IDSlash :: ID where "IDSlash \<equiv> 0x24"
abbreviation IDShiftL :: ID where "IDShiftL \<equiv> 0x25"
abbreviation IDShiftR :: ID where "IDShiftR \<equiv> 0x26"
abbreviation IDAmp :: ID where "IDAmp \<equiv> 0x27"
abbreviation IDPipe :: ID where "IDPipe \<equiv> 0x28"
abbreviation IDHat :: ID where "IDHat \<equiv> 0x29"
abbreviation IDPercent :: ID where "IDPercent \<equiv> 0x2A"
abbreviation IDTildeModPlus :: ID where "IDTildeModPlus \<equiv> 0x2B"
abbreviation IDTildeModMinus :: ID where "IDTildeModMinus \<equiv> 0x2C"
abbreviation IDTildeSatPlus :: ID where "IDTildeSatPlus \<equiv> 0x2D"
abbreviation IDTildeSatMinus :: ID where "IDTildeSatMinus \<equiv> 0x2E"

abbreviation IDNotEq :: ID where "IDNotEq \<equiv> 0x30"
abbreviation IDLessThan :: ID where "IDLessThan \<equiv> 0x31"
abbreviation IDLessEq :: ID where "IDLessEq \<equiv> 0x32"
abbreviation IDEqEq :: ID where "IDEqEq \<equiv> 0x33"
abbreviation IDGreaterEq :: ID where "IDGreaterEq \<equiv> 0x34"
abbreviation IDGreaterThan :: ID where "IDGreaterThan \<equiv> 0x35"

abbreviation IDAnd :: ID where "IDAnd \<equiv> 0x38"
abbreviation IDOr :: ID where "IDOr \<equiv> 0x39"
abbreviation IDNot :: ID where "IDNot \<equiv> 0x3A"
abbreviation IDAs :: ID where "IDAs \<equiv> 0x3B"
abbreviation IDRef :: ID where "IDRef \<equiv> 0x3C"
abbreviation IDDeref :: ID where "IDDeref \<equiv> 0x3D"

abbreviation IDXUnaryPlus :: ID where "IDXUnaryPlus \<equiv> 0x40"
abbreviation IDXUnaryMinus :: ID where "IDXUnaryMinus \<equiv> 0x41"
abbreviation IDXUnaryNot :: ID where "IDXUnaryNot \<equiv> 0x42"
abbreviation IDXUnaryRef :: ID where "IDXUnaryRef \<equiv> 0x43"
abbreviation IDXUnaryDeref :: ID where "IDXUnaryDeref \<equiv> 0x44"

abbreviation IDXBinaryPlus :: ID where "IDXBinaryPlus \<equiv> 0x48"
abbreviation IDXBinaryMinus :: ID where "IDXBinaryMinus \<equiv> 0x49"
abbreviation IDXBinaryStar :: ID where "IDXBinaryStar \<equiv> 0x4A"
abbreviation IDXBinarySlash :: ID where "IDXBinarySlash \<equiv> 0x4B"
abbreviation IDXBinaryShiftL :: ID where "IDXBinaryShiftL \<equiv> 0x4C"
abbreviation IDXBinaryShiftR :: ID where "IDXBinaryShiftR \<equiv> 0x4D"
abbreviation IDXBinaryAmp :: ID where "IDXBinaryAmp \<equiv> 0x4E"
abbreviation IDXBinaryPipe :: ID where "IDXBinaryPipe \<equiv> 0x4F"
abbreviation IDXBinaryHat :: ID where "IDXBinaryHat \<equiv> 0x50"
abbreviation IDXBinaryPercent :: ID where "IDXBinaryPercent \<equiv> 0x51"
abbreviation IDXBinaryTildeModPlus :: ID where "IDXBinaryTildeModPlus \<equiv> 0x52"
abbreviation IDXBinaryTildeModMinus :: ID where "IDXBinaryTildeModMinus \<equiv> 0x53"
abbreviation IDXBinaryTildeSatPlus :: ID where "IDXBinaryTildeSatPlus \<equiv> 0x54"
abbreviation IDXBinaryTildeSatMinus :: ID where "IDXBinaryTildeSatMinus \<equiv> 0x55"
abbreviation IDXBinaryNotEq :: ID where "IDXBinaryNotEq \<equiv> 0x56"
abbreviation IDXBinaryLessThan :: ID where "IDXBinaryLessThan \<equiv> 0x57"
abbreviation IDXBinaryLessEq :: ID where "IDXBinaryLessEq \<equiv> 0x58"
abbreviation IDXBinaryEqEq :: ID where "IDXBinaryEqEq \<equiv> 0x59"
abbreviation IDXBinaryGreaterEq :: ID where "IDXBinaryGreaterEq \<equiv> 0x5A"
abbreviation IDXBinaryGreaterThan :: ID where "IDXBinaryGreaterThan \<equiv> 0x5B"
abbreviation IDXBinaryAnd :: ID where "IDXBinaryAnd \<equiv> 0x5C"
abbreviation IDXBinaryOr :: ID where "IDXBinaryOr \<equiv> 0x5D"
abbreviation IDXBinaryAs :: ID where "IDXBinaryAs \<equiv> 0x5E"

abbreviation IDXAssociativePlus :: ID where "IDXAssociativePlus \<equiv> 0x60"
abbreviation IDXAssociativeStar :: ID where "IDXAssociativeStar \<equiv> 0x61"
abbreviation IDXAssociativeAmp :: ID where "IDXAssociativeAmp \<equiv> 0x62"
abbreviation IDXAssociativePipe :: ID where "IDXAssociativePipe \<equiv> 0x63"
abbreviation IDXAssociativeHat :: ID where "IDXAssociativeHat \<equiv> 0x64"
abbreviation IDXAssociativeAnd :: ID where "IDXAssociativeAnd \<equiv> 0x65"
abbreviation IDXAssociativeOr :: ID where "IDXAssociativeOr \<equiv> 0x66"

abbreviation IDReturn :: ID where "IDReturn \<equiv> 0x75"
abbreviation IDBreak :: ID where "IDBreak \<equiv> 0x76"
abbreviation IDError :: ID where "IDError \<equiv> 0x81"
abbreviation IDTry :: ID where "IDTry \<equiv> 0x85"
abbreviation IDYield :: ID where "IDYield \<equiv> 0x87"

abbreviation IDArray :: ID where "IDArray \<equiv> 0x90"
abbreviation IDPtr :: ID where "IDPtr \<equiv> 0x92"

abbreviation IDBool :: ID where "IDBool \<equiv> 0x101"
abbreviation IDImageBuffer :: ID where "IDImageBuffer \<equiv> 0x110"
abbreviation IDStatus :: ID where "IDStatus \<equiv> 0x114"
abbreviation IDI8 :: ID where "IDI8 \<equiv> 0x120"
abbreviation IDI16 :: ID where "IDI16 \<equiv> 0x121"
abbreviation IDI32 :: ID where "IDI32 \<equiv> 0x122"
abbreviation IDI64 :: ID where "IDI64 \<equiv> 0x123"
abbreviation IDU8 :: ID where "IDU8 \<equiv> 0x124"
abbreviation IDU16 :: ID where "IDU16 \<equiv> 0x125"
abbreviation IDU32 :: ID where "IDU32 \<equiv> 0x126"
abbreviation IDU64 :: ID where "IDU64 \<equiv> 0x127"
abbreviation IDBase :: ID where "IDBase \<equiv> 0x134"

subsection \<open>The operator form tables and their initialisation\<close>

text \<open>
  A Go array literal \<open>[n]ID{k: v, ...}\<close> is the all-zero array of length \<open>n\<close> with the
  listed entries set (Go rejects a literal with a repeated key, so the order of the
  entries does not matter).
\<close>

fun arrayLit :: "nat \<Rightarrow> (nat \<times> ID) list \<Rightarrow> ID list" where
  "arrayLit n [] = replicate n 0"
| "arrayLit n ((k, v) # kvs) = (arrayLit n kvs)[k := v]"

text \<open>The three tables as the source's literals give them, before \<open>init\<close> runs.\<close>

definition unaryFormsLit :: "ID list" where
  "unaryFormsLit = arrayLit nBuiltInSymbolicIDs
     [(IDPlus, IDXUnaryPlus),
      (IDMinus, IDXUnaryMinus),
      (IDNot, IDXUnaryNot),
      (IDRef, IDXUnaryRef),
      (IDDeref, IDXUnaryDeref)]"

definition binaryFormsLit :: "ID list" where
  "binaryFormsLit = arrayLit nBuiltInSymbolicIDs
     [(IDPlusEq, IDXBinaryPlus),
      (IDMinusEq, IDXBinaryMinus),
      (IDStarEq, IDXBinaryStar),
      (IDSlashEq, IDXBinarySlash),
      (IDShiftLEq, IDXBinaryShiftL),
      (IDShiftREq, IDXBinaryShiftR),
      (IDAmpEq, IDXBinaryAmp),
      (IDPipeEq, IDXBinaryPipe),
      (IDHatEq, IDXBinaryHat),
      (IDPercentEq, IDXBinaryPercent),
      (IDTildeModPlusEq, IDXBinaryTildeModPlus),
      (IDTildeModMinusEq, IDXBinaryTildeModMinus),
      (IDTildeSatPlusEq, IDXBinaryTildeSatPlus),
      (IDTildeSatMinusEq, IDXBinaryTildeSatMinus),
      (IDPlus, IDXBinaryPlus),
      (IDMinus, IDXBinaryMinus),
      (IDStar, IDXBinaryStar),
      (IDSlash, IDXBinarySlash),
      (IDShiftL, IDXBinaryShiftL),
      (IDShiftR, IDXBinaryShiftR),
      (IDAmp, IDXBinaryAmp),
      (IDPipe, IDXBinaryPipe),
      (IDHat, IDXBinaryHat),
      (IDPercent, IDXBinaryPercent),
      (IDTildeModPlus, IDXBinaryTildeModPlus),
      (IDTildeModMinus, IDXBinaryTildeModMinus),
      (IDTildeSatPlus, IDXBinaryTildeSatPlus),
      (IDTildeSatMinus, IDXBinaryTildeSatMinus),
      (IDNotEq, IDXBinaryNotEq),
      (IDLessThan, IDXBinaryLessThan),
      (IDLessEq, IDXBinaryLessEq),
      (IDEqEq, IDXBinaryEqEq),
      (IDGreaterEq, IDXBinaryGreaterEq),
      (IDGreaterThan, IDXBinaryGreaterThan),
      (IDAnd, IDXBinaryAnd),
      (IDOr, IDXBinaryOr),
      (IDAs, IDXBinaryAs)]"

definition associativeFormsLit :: "ID list" where
  "associativeFormsLit = arrayLit nBuiltInSymbolicIDs
     [(IDPlus, IDXAssociativePlus),
      (IDStar, IDXAssociativeStar),
      (IDAmp, IDXAssociativeAmp),
      (IDPipe, IDXAssociativePipe),
      (IDHat, IDXAssociativeHat),
      (IDAnd, IDXAssociativeAnd),
      (IDOr, IDXAssociativeOr)]"

text \<open>
  \<open>addXForms\<close>. Its first loop ranges over the table and sets \<open>implicitEntries[y]\<close> for
  every non-zero entry \<open>y\<close>; the index expression panics when \<open>y\<close> is not below the
  array's length, which is the result \<open>None\<close>. Its second loop ranges over
  \<open>implicitEntries\<close> with the index \<open>y\<close> and stores \<open>table[y] = y\<close> where the flag is set.
\<close>

fun markImplicit :: "ID list \<Rightarrow> bool list \<Rightarrow> bool list option" where
  "markImplicit [] implicitEntries = Some implicitEntries"
| "markImplicit (y # ys) implicitEntries =
     (if y \<noteq> 0
      then (if y < length implicitEntries
            then markImplicit ys (implicitEntries[y := True])
            else None)
      else markImplicit ys implicitEntries)"

fun setImplicit :: "(nat \<times> bool) list \<Rightarrow> ID list \<Rightarrow> ID list" where
  "setImplicit [] table = table"
| "setImplicit ((y, implicit) # rest) table =
     setImplicit rest (if implicit then table[y := y] else table)"

definition addXForms :: "ID list \<Rightarrow> ID list option" where
  "addXForms table =
     (case markImplicit table (replicate nBuiltInSymbolicIDs False) of
        None \<Rightarrow> None
      | Some implicitEntries \<Rightarrow> Some (setImplicit (enumerate 0 implicitEntries) table))"

text \<open>
  The tables after \<open>init\<close> has run \<open>addXForms\<close> on each of them. The \<open>None\<close> branch is
  the panic during package initialisation; the lemmas \<open>unaryForms_init\<close>,
  \<open>binaryForms_init\<close> and \<open>associativeForms_init\<close> below show that it is not taken.
\<close>

definition unaryForms :: "ID list" where
  "unaryForms = (case addXForms unaryFormsLit of Some table \<Rightarrow> table | None \<Rightarrow> [])"

definition binaryForms :: "ID list" where
  "binaryForms = (case addXForms binaryFormsLit of Some table \<Rightarrow> table | None \<Rightarrow> [])"

definition associativeForms :: "ID list" where
  "associativeForms =
     (case addXForms associativeFormsLit of Some table \<Rightarrow> table | None \<Rightarrow> [])"

definition UnaryForm :: "ID \<Rightarrow> ID" where
  "UnaryForm x = (if x \<ge> length unaryForms then 0 else unaryForms ! x)"

definition BinaryForm :: "ID \<Rightarrow> ID" where
  "BinaryForm x = (if x \<ge> length binaryForms then 0 else binaryForms ! x)"

definition AssociativeForm :: "ID \<Rightarrow> ID" where
  "AssociativeForm x = (if x \<ge> length associativeForms then 0 else associativeForms ! x)"

text \<open>
  The predicates. Go's \<open>&&\<close> evaluates its right operand only when the left one holds,
  so the table is indexed only for \<open>minOp \<le> x \<le> maxOp\<close>, which is within the array.
\<close>

definition IsUnaryOp :: "ID \<Rightarrow> bool" where
  "IsUnaryOp x = (if minOp \<le> x \<and> x \<le> maxOp then unaryForms ! x \<noteq> 0 else False)"

definition IsBinaryOp :: "ID \<Rightarrow> bool" where
  "IsBinaryOp x = (if minOp \<le> x \<and> x \<le> maxOp then binaryForms ! x \<noteq> 0 else False)"

definition IsAssociativeOp :: "ID \<Rightarrow> bool" where
  "IsAssociativeOp x =
     (if minOp \<le> x \<and> x \<le> maxOp then associativeForms ! x \<noteq> 0 else False)"

definition IsAssign :: "ID \<Rightarrow> bool" where
  "IsAssign x = (minAssign \<le> x \<and> x \<le> maxAssign)"

definition IsXOp :: "ID \<Rightarrow> bool" where
  "IsXOp x = (minXOp \<le> x \<and> x \<le> maxXOp)"

definition IsXUnaryOp :: "ID \<Rightarrow> bool" where
  "IsXUnaryOp x = (if minXOp \<le> x \<and> x \<le> maxXOp then unaryForms ! x \<noteq> 0 else False)"

definition IsXBinaryOp :: "ID \<Rightarrow> bool" where
  "IsXBinaryOp x = (if minXOp \<le> x \<and> x \<le> maxXOp then binaryForms ! x \<noteq> 0 else False)"

definition IsXAssociativeOp :: "ID \<Rightarrow> bool" where
  "IsXAssociativeOp x =
     (if minXOp \<le> x \<and> x \<le> maxXOp then associativeForms ! x \<noteq> 0 else False)"

subsection \<open>The suffix lexers\<close>

text \<open>
  \<open>var lexers = [256][]suffixLexer{...}\<close>: an array indexed by the first byte of a
  squiggle; a byte the literal does not list has the \<open>nil\<close> slice. A \<open>suffixLexer\<close> is
  the pair of its \<open>suffix\<close> and its \<open>id\<close>.
\<close>

type_synonym suffixLexer = "string \<times> ID"

definition lexers :: "char \<Rightarrow> suffixLexer list" where
  "lexers c =
     (if c = CHR ''.'' then [(''.'', IDDotDot), ('''', IDDot)]
      else if c = CHR ''!'' then [(''='', IDNotEq), ('''', IDExclam)]
      else if c = CHR ''&'' then [(''='', IDAmpEq), ('''', IDAmp)]
      else if c = CHR ''|'' then [(''='', IDPipeEq), ('''', IDPipe)]
      else if c = CHR ''^'' then [(''='', IDHatEq), ('''', IDHat)]
      else if c = CHR ''+'' then [(''='', IDPlusEq), ('''', IDPlus)]
      else if c = CHR ''-'' then [(''='', IDMinusEq), ('''', IDMinus)]
      else if c = CHR ''*'' then [(''='', IDStarEq), ('''', IDStar)]
      else if c = CHR ''/'' then [(''='', IDSlashEq), ('''', IDSlash)]
      else if c = CHR ''%'' then [(''='', IDPercentEq), ('''', IDPercent)]
      else if c = CHR ''='' then [(''='', IDEqEq), ('':'', IDEqColon), ('''', IDEq)]
      else if c = CHR ''<'' then
        [(''<='', IDShiftLEq), (''<'', IDShiftL), (''='', IDLessEq), ('''', IDLessThan)]
      else if c = CHR ''>'' then
        [(''>='', IDShiftREq), (''>'', IDShiftR), (''='', IDGreaterEq), ('''', IDGreaterThan)]
      else if c = CHR ''~'' then
        [(''mod+='', IDTildeModPlusEq),
         (''mod+'', IDTildeModPlus),
         (''mod-='', IDTildeModMinusEq),
         (''mod-'', IDTildeModMinus),
         (''sat+='', IDTildeSatPlusEq),
         (''sat+'', IDTildeSatPlus),
         (''sat-='', IDTildeSatMinusEq),
         (''sat-'', IDTildeSatMinus)]
      else [])"

text \<open>
  Modelled from the spec: the tokenizer's loop over \<open>lexers[c]\<close> is not among the
  sources at hand (only the table is). The spec (4.3) says: given a byte stream starting
  at a squiggly character, the lexer picks the first entry of the suffix lexers of the
  first byte whose suffix is a prefix of the remaining input. The result is the entry's
  ID and the number of bytes consumed (the first byte and the suffix); \<open>None\<close> when the
  input is empty or no entry matches.
\<close>

fun firstMatch :: "suffixLexer list \<Rightarrow> string \<Rightarrow> (ID \<times> nat) option" where
  "firstMatch [] rest = None"
| "firstMatch ((sfx, x) # more) rest =
     (if prefix sfx rest then Some (x, length sfx + 1) else firstMatch more rest)"

fun lexSquiggle :: "string \<Rightarrow> (ID \<times> nat) option" where
  "lexSquiggle [] = None"
| "lexSquiggle (c # rest) = firstMatch (lexers c) rest"


section \<open>Package ast\<close>

text \<open>
  An \<open>ast.Node\<close> is one struct for every kind of node; \<open>*Expr\<close> and \<open>*TypeExpr\<close> are
  the same pointer under another type, so \<open>n.lhs.Expr()\<close> and \<open>n.rhs.TypeExpr()\<close> are
  conversions that change nothing. The struct's declaration is not among the sources at
  hand; the model has the fields that \<open>Expr.Eq\<close> and \<open>TypeExpr.eq\<close> read (\<open>flags\<close>,
  \<open>constValue\<close>, \<open>id0\<close>, \<open>id1\<close>, \<open>id2\<close>, \<open>lhs\<close>, \<open>mhs\<close>, \<open>rhs\<close>, \<open>list0\<close>) and what
  the code generator asks of a node through its accessors: \<open>Kind()\<close> and the three
  predicates \<open>Suspendible()\<close>, \<open>CallSuspendible()\<close> and \<open>ProvenNotToSuspend()\<close>. The
  predicates are carried as fields of their own, since the flag bits they test are not
  in the sources either.

  A \<open>*Node\<close> is a \<open>Node option\<close>, \<open>nil\<close> being \<open>None\<close>. Go compares pointers by
  identity: every node carries the address \<open>addr\<close> it was allocated at, and \<open>n == o\<close>
  is the equality of the addresses.
\<close>

datatype Kind = KInvalid | KAssert | KAssign | KExpr | KIOBind | KIf | KIterate | KJump
  | KRet | KVar | KWhile | KOther

record NodeData =
  addr :: nat
  kind :: Kind
  flags :: "32 word"
  constValue :: "int option"
  id0 :: ID
  id1 :: ID
  id2 :: ID
  Suspendible :: bool
  CallSuspendible :: bool
  ProvenNotToSuspend :: bool

datatype Node = Node (dat: NodeData) (lhs: "Node option") (mhs: "Node option")
  (rhs: "Node option") (list0: "Node option list")

text \<open>
  Modelled from the spec: the accessors \<open>IsArrayType\<close>, \<open>Operator\<close>, \<open>Args\<close> and
  \<open>SubNodes\<close> are methods of package ast whose bodies are not among the sources at hand.
  By the spec (4.5, 6) a type expression's \<open>id0\<close> is its decorator (\<open>array\<close>, \<open>ptr\<close>,
  ...), an expression's \<open>id0\<close> is its operator, its argument list is \<open>list0\<close>, and its
  operand slots are \<open>lhs\<close>, \<open>mhs\<close> and \<open>rhs\<close>, in that order.
\<close>

definition IsArrayType :: "NodeData \<Rightarrow> bool" where
  "IsArrayType d = (id0 d = IDArray)"

definition Operator :: "Node \<Rightarrow> ID" where
  "Operator n = id0 (dat n)"

definition Args :: "Node \<Rightarrow> Node option list" where
  "Args n = list0 n"

definition SubNodes :: "Node \<Rightarrow> Node option list" where
  "SubNodes n = [lhs n, mhs n, rhs n]"

text \<open>
  \<open>Expr.Eq\<close> and \<open>TypeExpr.eq\<close>, which call each other; \<open>Expr_Eq_list0\<close> is the loop
  of \<open>Expr.Eq\<close> over \<open>n.list0\<close>, reading \<open>o.list0[i]\<close> (the loop runs only when the two
  lengths are equal, so the index is in range). The mask \<open>flagsThatMatterForEq\<close> is a
  constant of package ast that is not in the sources: it is the parameter \<open>fm\<close>.
  \<open>constValue.Cmp(...) == 0\<close> is the equality of the two integers. The loop of
  \<open>TypeExpr.eq\<close> is the recursion on \<open>n.rhs\<close> and \<open>o.rhs\<close>.
\<close>

fun Expr_Eq :: "32 word \<Rightarrow> Node option \<Rightarrow> Node option \<Rightarrow> bool"
  and Expr_Eq_list0 :: "32 word \<Rightarrow> Node option list \<Rightarrow> Node option list \<Rightarrow> bool"
  and TypeExpr_eq :: "32 word \<Rightarrow> Node option \<Rightarrow> Node option \<Rightarrow> bool \<Rightarrow> bool"
where
  "Expr_Eq fm None None = True"
| "Expr_Eq fm None (Some b) = False"
| "Expr_Eq fm (Some a) None = False"
| "Expr_Eq fm (Some (Node dn ln mn rn xn)) (Some (Node do lo mo ro xo)) =
     (if addr dn = addr do then True
      else if constValue dn \<noteq> None \<and> constValue do \<noteq> None
        then constValue dn = constValue do
      else if and (flags dn) fm \<noteq> and (flags do) fm \<or>
          id0 dn \<noteq> id0 do \<or> id1 dn \<noteq> id1 do \<or> id2 dn \<noteq> id2 do
        then False
      else if \<not> Expr_Eq fm ln lo then False
      else if \<not> Expr_Eq fm mn mo then False
      else if (if id0 dn = IDXBinaryAs then \<not> TypeExpr_eq fm rn ro False
               else \<not> Expr_Eq fm rn ro)
        then False
      else if length xn \<noteq> length xo then False
      else Expr_Eq_list0 fm xn xo)"
| "Expr_Eq_list0 fm [] ys = True"
| "Expr_Eq_list0 fm (x # xs) [] = False"
| "Expr_Eq_list0 fm (x # xs) (y # ys) =
     (if \<not> Expr_Eq fm x y then False else Expr_Eq_list0 fm xs ys)"
| "TypeExpr_eq fm None None ignoreRefinements = True"
| "TypeExpr_eq fm None (Some b) ignoreRefinements = False"
| "TypeExpr_eq fm (Some a) None ignoreRefinements = False"
| "TypeExpr_eq fm (Some (Node dn ln mn rn xn)) (Some (Node do lo mo ro xo))
       ignoreRefinements =
     (if addr dn = addr do then True
      else if id0 dn \<noteq> id0 do \<or> id1 dn \<noteq> id1 do \<or> id2 dn \<noteq> id2 do then False
      else if (IsArrayType dn \<or> \<not> ignoreRefinements) \<and>
          (\<not> Expr_Eq fm ln lo \<or> \<not> Expr_Eq fm mn mo)
        then False
      else if rn = None \<and> ro = None then True
      else TypeExpr_eq fm rn ro ignoreRefinements)"

definition TypeExpr_Eq :: "32 word \<Rightarrow> Node option \<Rightarrow> Node option \<Rightarrow> bool" where
  "TypeExpr_Eq fm n o' = TypeExpr_eq fm n o' False"

definition EqIgnoringRefinements :: "32 word \<Rightarrow> Node option \<Rightarrow> Node option \<Rightarrow> bool" where
  "EqIgnoringRefinements fm n o' = TypeExpr_eq fm n o' True"

text \<open>
  For the statement of what \<open>EqIgnoringRefinements\<close> ignores (not a function of the
  source): \<open>eraseRefinements\<close> walks the decorator chain of a type expression and, on
  every level that is not an array, removes the two refinement bounds \<open>lhs\<close> and \<open>mhs\<close>;
  on an array level \<open>lhs\<close> is the array's length and is kept.
\<close>

fun eraseRefinements :: "Node \<Rightarrow> Node" where
  "eraseRefinements (Node d l m r xs) =
     Node d (if IsArrayType d then l else None) (if IsArrayType d then m else None)
       (case r of None \<Rightarrow> None | Some r' \<Rightarrow> Some (eraseRefinements r')) xs"

text \<open>
  Two pointers to nodes are consistent when equal addresses hold equal nodes, as they
  do for any two pointers into one heap.
\<close>

definition sameHeap :: "Node \<Rightarrow> Node \<Rightarrow> bool" where
  "sameHeap a b = (if addr (dat a) = addr (dat b) then a = b else True)"


section \<open>Package cgen\<close>

subsection \<open>Formatting\<close>

text \<open>
  \<open>%d\<close> of an unsigned integer and \<open>%s\<close> of a \<open>*big.Int\<close> print the decimal digits,
  with a leading \<open>-\<close> for a negative \<open>big.Int\<close>.
\<close>

definition digitChar :: "nat \<Rightarrow> char" where
  "digitChar n = ''0123456789'' ! n"

fun showNat :: "nat \<Rightarrow> string" where
  "showNat n = (if n < 10 then [digitChar n] else showNat (n div 10) @ [digitChar (n mod 10)])"

declare showNat.simps [simp del]

definition showInt :: "int \<Rightarrow> string" where
  "showInt i = (if i < 0 then CHR ''-'' # showNat (nat (- i)) else showNat (nat i))"

text \<open>The line feed, \<open>\\n\<close> in the Go strings.\<close>

definition NL :: string where
  "NL = [CHR 0x0A]"

subsection \<open>Errors, buffers and the generator's state\<close>

text \<open>
  An \<open>error\<close> is a value: the two sentinels \<open>errMightActuallySuspend\<close> and
  \<open>errNoSuchBuiltin\<close>, which the code compares by identity, one constructor for each
  \<open>fmt.Errorf\<close> of the functions modelled here, and \<open>ErrOther\<close> for the errors of the
  functions that are parameters of the model.
\<close>

datatype error =
    ErrMightActuallySuspend
  | ErrNoSuchBuiltin
  | ErrExprDepth
  | ErrTooManyTemps
  | ErrTooManyCoroSuspPoints
  | ErrTooManyJumpTargets
  | ErrRetExprEmptyType Node
  | ErrEmptyRetNonEmptyType
  | ErrOther string

text \<open>
  \<open>type buffer []byte\<close>: \<open>writes\<close>, \<open>writeb\<close> and \<open>printf\<close> append to it. A \<open>Loop\<close> is
  the identity (the address) of a \<open>while\<close> or \<open>iterate\<close> node.
\<close>

type_synonym buffer = string
type_synonym Loop = nat

text \<open>
  What \<open>writeFuncImplArgChecks\<close>, \<open>writeStatementJump\<close> and \<open>writeStatementRet\<close> ask
  of the AST, through accessors of package ast that are not in the sources: of a type
  expression its \<open>Decorator()\<close>, \<open>IsRefined()\<close>, \<open>Bounds()\<close> and \<open>QID()\<close>; of a field its
  \<open>Name()\<close> (as the string \<open>Str(g.tm)\<close> gives) and \<open>XType()\<close>; of a function its
  \<open>Receiver()\<close> and the \<open>Fields()\<close> of \<open>In()\<close> and \<open>Out()\<close>; of a jump its \<open>Keyword()\<close> and
  \<open>JumpTarget()\<close>; of a return its \<open>Keyword()\<close> and \<open>Value()\<close>.
\<close>

record TypeView =
  Decorator :: ID
  IsRefined :: bool
  Bounds :: "Node option \<times> Node option"
  QID :: "ID \<times> ID"

record Field =
  Name :: string
  XType :: TypeView

record Func =
  Receiver :: "ID \<times> ID"
  InFields :: "Field list"
  OutFields :: "Field list"

record Jump =
  Jump_Keyword :: ID
  Jump_JumpTarget :: Loop

record Ret =
  Ret_Keyword :: ID
  Ret_Value :: "Node option"

text \<open>
  \<open>type funk struct\<close>, without its five buffers (the functions below write to the
  buffer they are given and never read a buffer of the \<open>funk\<close>) and without
  \<open>derivedVars\<close>. \<open>jumpTargets\<close> is a Go map, which may be \<open>nil\<close>: \<open>None\<close>, or the
  list of its entries in the order they were stored.
\<close>

record funk =
  astFunc :: Func
  cName :: string
  jumpTargets :: "(Loop \<times> 32 word) list option"
  coroSuspPoint :: "32 word"
  ioBinds :: "32 word"
  tempW :: "32 word"
  tempR :: "32 word"
  public :: bool
  suspendible :: bool
  usesScratch :: bool
  hasGotoOK :: bool
  shortReads :: "string list"

record gen =
  pkgPrefix :: string
  PKGPREFIX :: string
  currFunk :: funk

text \<open>
  A function of the generator changes the state and the buffer and returns an \<open>error\<close>
  (\<open>None\<close> is \<open>nil\<close>); the state and the buffer are returned also when it fails, as
  they are then.
\<close>

type_synonym emit = "error option \<times> gen \<times> buffer"

datatype replacementPolicy = replaceNothing | replaceCallSuspendibles

text \<open>
  The constants and functions of packages ast and cgen that the functions below use and
  that are not among the sources at hand are taken as parameters.
\<close>

record cgen_env =
  MaxExprDepth :: "32 word"
  maxTemp :: "32 word"
  tPrefix :: string
  aPrefix :: string
  writeExpr :: "gen \<Rightarrow> buffer \<Rightarrow> Node \<Rightarrow> replacementPolicy \<Rightarrow> 32 word \<Rightarrow> emit"
  writeSaveExprDerivedVars :: "gen \<Rightarrow> buffer \<Rightarrow> Node \<Rightarrow> emit"
  writeLoadExprDerivedVars :: "gen \<Rightarrow> buffer \<Rightarrow> Node \<Rightarrow> emit"
  writeBuiltinCallSuspendibles :: "gen \<Rightarrow> buffer \<Rightarrow> Node \<Rightarrow> 32 word \<Rightarrow> emit"
  writeExprUserDefinedCall ::
    "gen \<Rightarrow> buffer \<Rightarrow> Node \<Rightarrow> replacementPolicy \<Rightarrow> 32 word \<Rightarrow> emit"

subsection \<open>Jump targets\<close>

text \<open>
  \<open>funk.jumpTarget\<close>: a \<open>nil\<close> map is replaced by an empty one; a loop that is in the
  map gets its number; otherwise the number is \<open>uint32(len(k.jumpTargets))\<close>, refused
  when it is 1000000 and stored otherwise. The result is the number, the error and the
  \<open>funk\<close> as the call leaves it.
\<close>

definition jumpTarget :: "funk \<Rightarrow> Loop \<Rightarrow> 32 word \<times> error option \<times> funk" where
  "jumpTarget k n =
     (let m = (case jumpTargets k of None \<Rightarrow> [] | Some m \<Rightarrow> m);
          k = k\<lparr>jumpTargets := Some m\<rparr>
      in case map_of m n of
           Some jt \<Rightarrow> (jt, None, k)
         | None \<Rightarrow>
             (let jt = (word_of_nat (length m) :: 32 word)
              in if jt = 1000000 then (0, Some ErrTooManyJumpTargets, k)
                 else (jt, None, k\<lparr>jumpTargets := Some (m @ [(n, jt)])\<rparr>)))"

definition writeStatementJump :: "gen \<Rightarrow> buffer \<Rightarrow> Jump \<Rightarrow> 32 word \<Rightarrow> emit" where
  "writeStatementJump g b n depth =
     (case jumpTarget (currFunk g) (Jump_JumpTarget n) of
        (jt, Some err, k) \<Rightarrow> (Some err, g\<lparr>currFunk := k\<rparr>, b)
      | (jt, None, k) \<Rightarrow>
          (let keyword = (if Jump_Keyword n = IDBreak then ''break'' else ''continue'')
           in (None, g\<lparr>currFunk := k\<rparr>,
               b @ ''goto label_'' @ showNat (unat jt) @ ''_'' @ keyword @ '';'' @ NL)))"

text \<open>
  The entries of a map that was only ever written by \<open>jumpTarget\<close>, starting from the
  \<open>nil\<close> map of a fresh \<open>funk\<close>: the keys are distinct (it is a map), the numbers are
  \<open>0, 1, 2, ...\<close> in the order of allocation, and there are at most 1000000 of them.
\<close>

definition targets :: "funk \<Rightarrow> (Loop \<times> 32 word) list" where
  "targets k = (case jumpTargets k of None \<Rightarrow> [] | Some m \<Rightarrow> m)"

definition jumpTargetsOK :: "funk \<Rightarrow> bool" where
  "jumpTargetsOK k =
     (distinct (map fst (targets k)) \<and>
      map snd (targets k) = map word_of_nat [0 ..< length (targets k)] \<and>
      length (targets k) \<le> 1000000)"

text \<open>The calls \<open>jumpTarget(n)\<close> for the loops of a list, in order, from a given \<open>funk\<close>.\<close>

fun jumpTargetAll :: "funk \<Rightarrow> Loop list \<Rightarrow> (32 word \<times> error option) list \<times> funk" where
  "jumpTargetAll k [] = ([], k)"
| "jumpTargetAll k (n # ns) =
     (case jumpTarget k n of
        (jt, err, k') \<Rightarrow>
          (case jumpTargetAll k' ns of (rs, k'') \<Rightarrow> ((jt, err) # rs, k'')))"

subsection \<open>Suspension points and suspendible calls\<close>


definition writeCoroSuspPoint :: "gen \<Rightarrow> buffer \<Rightarrow> bool \<Rightarrow> emit" where
  "writeCoroSuspPoint g b maybeSuspend =
     (let g = g\<lparr>currFunk := (currFunk g)\<lparr>coroSuspPoint := coroSuspPoint (currFunk g) + 1\<rparr>\<rparr>
      in if coroSuspPoint (currFunk g) = 0xFFFFFFFF
         then (Some ErrTooManyCoroSuspPoints, g, b)
         else (let macro = (if maybeSuspend then ''_MAYBE_SUSPEND'' else '''')
               in (None, g,
                   b @ ''WUFFS_BASE__COROUTINE_SUSPENSION_POINT'' @ macro @ ''('' @
                     showNat (unat (coroSuspPoint (currFunk g))) @ '');'' @ NL)))"

text \<open>
  \<open>mightActuallySuspend\<close>. The loop over \<open>n.Node().Raw().SubNodes()\<close> visits \<open>lhs\<close>,
  \<open>mhs\<close> and \<open>rhs\<close> in this order and the loop over \<open>n.Args()\<close> visits \<open>list0\<close>;
  \<open>mightActuallySuspend_node\<close> is the body of both loops (\<open>o != nil\<close> and
  \<open>o.Kind() == a.KExpr\<close>) and \<open>mightActuallySuspend_nodes\<close> the loop over a slice. The
  function reads the state only through the constant \<open>a.MaxExprDepth\<close>.
\<close>

fun mightActuallySuspend :: "cgen_env \<Rightarrow> Node \<Rightarrow> 32 word \<Rightarrow> error option"
  and mightActuallySuspend_node :: "cgen_env \<Rightarrow> Node option \<Rightarrow> 32 word \<Rightarrow> error option"
  and mightActuallySuspend_nodes ::
    "cgen_env \<Rightarrow> Node option list \<Rightarrow> 32 word \<Rightarrow> error option"
where
  "mightActuallySuspend env (Node d l m r xs) depth =
     (if depth > MaxExprDepth env then Some ErrExprDepth
      else if \<not> CallSuspendible d then
        (case mightActuallySuspend_node env l (depth + 1) of
           Some err \<Rightarrow> Some err
         | None \<Rightarrow>
        (case mightActuallySuspend_node env m (depth + 1) of
           Some err \<Rightarrow> Some err
         | None \<Rightarrow>
        (case mightActuallySuspend_node env r (depth + 1) of
           Some err \<Rightarrow> Some err
         | None \<Rightarrow> mightActuallySuspend_nodes env xs (depth + 1))))
      else if ProvenNotToSuspend d then None
      else Some ErrMightActuallySuspend)"
| "mightActuallySuspend_node env None depth = None"
| "mightActuallySuspend_node env (Some n) depth =
     (if kind (dat n) = KExpr then mightActuallySuspend env n depth else None)"
| "mightActuallySuspend_nodes env [] depth = None"
| "mightActuallySuspend_nodes env (x # xs) depth =
     (case mightActuallySuspend_node env x depth of
        Some err \<Rightarrow> Some err
      | None \<Rightarrow> mightActuallySuspend_nodes env xs depth)"


text \<open>
  \<open>writeCallSuspendibles\<close>, with the same two loops. \<open>writeCallSite\<close> is the rest of
  its body, which runs when \<open>n.CallSuspendible()\<close> holds, after \<open>depth++\<close>. An error
  other than \<open>errNoSuchBuiltin\<close> from \<open>writeBuiltinCallSuspendibles\<close>, and also its
  success, ends the function.
\<close>

definition writeCallSite :: "cgen_env \<Rightarrow> gen \<Rightarrow> buffer \<Rightarrow> Node \<Rightarrow> 32 word \<Rightarrow> emit" where
  "writeCallSite env g b n depth =
     (case writeSaveExprDerivedVars env g b n of
        (Some err, g, b) \<Rightarrow> (Some err, g, b)
      | (None, g, b) \<Rightarrow>
     (case writeBuiltinCallSuspendibles env g b n depth of
        (err, g, b) \<Rightarrow>
          if err \<noteq> Some ErrNoSuchBuiltin then (err, g, b)
          else
     (case (if Operator n = IDTry
            then (if tempW (currFunk g) > maxTemp env
                  then (Some ErrTooManyTemps, g, b)
                  else (let temp = tempW (currFunk g);
                            g = g\<lparr>currFunk := (currFunk g)\<lparr>tempW := tempW (currFunk g) + 1\<rparr>\<rparr>
                        in (None, g,
                            b @ pkgPrefix g @ ''status '' @ tPrefix env @ showNat (unat temp) @
                              '' = '')))
            else (None, g, b @ ''status = '')) of
        (Some err, g, b) \<Rightarrow> (Some err, g, b)
      | (None, g, b) \<Rightarrow>
     (case writeExprUserDefinedCall env g b n replaceNothing depth of
        (Some err, g, b) \<Rightarrow> (Some err, g, b)
      | (None, g, b) \<Rightarrow>
     (case writeLoadExprDerivedVars env g (b @ '';'' @ NL) n of
        (Some err, g, b) \<Rightarrow> (Some err, g, b)
      | (None, g, b) \<Rightarrow>
          if Operator n \<noteq> IDTry
          then (None, g, b @ ''if (status) { goto suspend; }'' @ NL)
          else (None, g, b))))))"

fun writeCallSuspendibles :: "cgen_env \<Rightarrow> gen \<Rightarrow> buffer \<Rightarrow> Node \<Rightarrow> 32 word \<Rightarrow> emit"
  and writeCallSuspendibles_node ::
    "cgen_env \<Rightarrow> gen \<Rightarrow> buffer \<Rightarrow> Node option \<Rightarrow> 32 word \<Rightarrow> emit"
  and writeCallSuspendibles_nodes ::
    "cgen_env \<Rightarrow> gen \<Rightarrow> buffer \<Rightarrow> Node option list \<Rightarrow> 32 word \<Rightarrow> emit"
where
  "writeCallSuspendibles env g b (Node d l m r xs) depth =
     (if depth > MaxExprDepth env then (Some ErrExprDepth, g, b)
      else if \<not> CallSuspendible d then
        (case writeCallSuspendibles_node env g b l (depth + 1) of
           (Some err, g, b) \<Rightarrow> (Some err, g, b)
         | (None, g, b) \<Rightarrow>
        (case writeCallSuspendibles_node env g b m (depth + 1) of
           (Some err, g, b) \<Rightarrow> (Some err, g, b)
         | (None, g, b) \<Rightarrow>
        (case writeCallSuspendibles_node env g b r (depth + 1) of
           (Some err, g, b) \<Rightarrow> (Some err, g, b)
         | (None, g, b) \<Rightarrow> writeCallSuspendibles_nodes env g b xs (depth + 1))))
      else writeCallSite env g b (Node d l m r xs) (depth + 1))"
| "writeCallSuspendibles_node env g b None depth = (None, g, b)"
| "writeCallSuspendibles_node env g b (Some n) depth =
     (if kind (dat n) = KExpr then writeCallSuspendibles env g b n depth else (None, g, b))"
| "writeCallSuspendibles_nodes env g b [] depth = (None, g, b)"
| "writeCallSuspendibles_nodes env g b (x # xs) depth =
     (case writeCallSuspendibles_node env g b x depth of
        (Some err, g, b) \<Rightarrow> (Some err, g, b)
      | (None, g, b) \<Rightarrow> writeCallSuspendibles_nodes env g b xs depth)"







subsection \<open>Return statements\<close>

definition writeStatementRet :: "cgen_env \<Rightarrow> gen \<Rightarrow> buffer \<Rightarrow> Ret \<Rightarrow> 32 word \<Rightarrow> emit" where
  "writeStatementRet env g b n depth =
     (let retExpr = Ret_Value n
      in if suspendible (currFunk g) then
           (case (case retExpr of
                    None \<Rightarrow> (None, g, b @ ''status = '' @ PKGPREFIX g @ ''STATUS_OK'', IDStatus)
                  | Some e \<Rightarrow>
                      (case writeExpr env g (b @ ''status = '') e replaceCallSuspendibles depth of
                         (err, g, b) \<Rightarrow> (err, g, b, Operator e))) of
              (Some err, g, b, retKeyword) \<Rightarrow> (Some err, g, b)
            | (None, g, b, retKeyword) \<Rightarrow>
                (let b = b @ '';''
                 in if Ret_Keyword n = IDYield then writeCoroSuspPoint g b True
                    else if retKeyword = IDError then (None, g, b @ ''goto exit;'')
                    else if retKeyword = IDStatus then
                      (None, g\<lparr>currFunk := (currFunk g)\<lparr>hasGotoOK := True\<rparr>\<rparr>, b @ ''goto ok;'')
                    else
                      (None, g\<lparr>currFunk := (currFunk g)\<lparr>hasGotoOK := True\<rparr>\<rparr>,
                       b @ ''if (status == 0) { goto ok; } else if (status > 0) { '' @
                         ''status = '' @ PKGPREFIX g @
                         ''ERROR_CANNOT_RETURN_A_SUSPENSION; } goto exit;'')))
         else
           (let b = b @ ''return ''
            in if length (OutFields (astFunc (currFunk g))) = 0 then
                 (case retExpr of
                    Some e \<Rightarrow> (Some (ErrRetExprEmptyType e), g, b)
                  | None \<Rightarrow> (None, g, b @ '';''))
               else
                 (case retExpr of
                    None \<Rightarrow> (Some ErrEmptyRetNonEmptyType, g, b)
                  | Some e \<Rightarrow>
                      (case writeExpr env g b e replaceCallSuspendibles depth of
                         (Some err, g, b) \<Rightarrow> (Some err, g, b)
                       | (None, g, b) \<Rightarrow> (None, g, b @ '';'')))))"

subsection \<open>Argument checks of public functions\<close>

text \<open>
  \<open>var numTypeBounds = [...][2]*big.Int{...}\<close>: the array's length is its largest
  index \<open>t.IDU64\<close> plus one, and an entry the literal does not list is \<open>{nil, nil}\<close>.
  The package variables \<open>zero\<close> and \<open>one\<close> are the integers 0 and 1.
\<close>

definition numTypeBounds :: "(int option \<times> int option) list" where
  "numTypeBounds =
     (replicate (IDU64 + 1) (None, None))
       [IDI8 := (Some (- (2 ^ 7)), Some (2 ^ 7 - 1)),
        IDI16 := (Some (- (2 ^ 15)), Some (2 ^ 15 - 1)),
        IDI32 := (Some (- (2 ^ 31)), Some (2 ^ 31 - 1)),
        IDI64 := (Some (- (2 ^ 63)), Some (2 ^ 63 - 1)),
        IDU8 := (Some 0, Some (2 ^ 8 - 1)),
        IDU16 := (Some 0, Some (2 ^ 16 - 1)),
        IDU32 := (Some 0, Some (2 ^ 32 - 1)),
        IDU64 := (Some 0, Some (2 ^ 64 - 1)),
        IDBool := (Some 0, Some 1)]"

text \<open>
  \<open>writeFuncImplArgChecks\<close>. \<open>argChecks\<close> is the body of its loop over the fields of
  \<open>n.In()\<close>: the strings it appends to \<open>checks\<close> for one field. \<open>boundConst\<close> is the
  first loop of the refined case (a bound counts when it is there and has a constant
  value), \<open>elideBound\<close> the body of the second and \<open>boundCheck\<close> the body of the third.
  \<open>writeChecks\<close> is the loop that writes the checks, \<open>||\<close> between them.
  \<open>writeFuncImplHeader\<close> calls the function when \<open>g.currFunk.public\<close> holds, and only
  then.
\<close>

definition boundConst :: "Node option \<Rightarrow> int option" where
  "boundConst bound = (case bound of None \<Rightarrow> None | Some e \<Rightarrow> constValue (dat e))"

definition elideBound :: "int option \<Rightarrow> int option \<Rightarrow> int option" where
  "elideBound bound ntb =
     (if bound \<noteq> None \<and> ntb \<noteq> None \<and> bound = ntb then None else bound)"

definition argBounds :: "TypeView \<Rightarrow> int option \<times> int option" where
  "argBounds oTyp =
     (let bounds = (boundConst (fst (Bounds oTyp)), boundConst (snd (Bounds oTyp)));
          qid = QID oTyp
      in if fst qid = IDBase then
           (let key = snd qid
            in if key < length numTypeBounds then
                 (let ntb = numTypeBounds ! key
                  in (elideBound (fst bounds) (fst ntb), elideBound (snd bounds) (snd ntb)))
               else bounds)
         else bounds)"

definition boundCheck :: "cgen_env \<Rightarrow> Field \<Rightarrow> nat \<Rightarrow> int option \<Rightarrow> string list" where
  "boundCheck env o' i bound =
     (case bound of
        None \<Rightarrow> []
      | Some v \<Rightarrow>
          [aPrefix env @ Name o' @ '' '' @ [if i \<noteq> 0 then CHR ''>'' else CHR ''<''] @ '' '' @
             showInt v])"

definition argChecks :: "cgen_env \<Rightarrow> Field \<Rightarrow> string list" where
  "argChecks env o' =
     (let oTyp = XType o'
      in if Decorator oTyp \<noteq> IDPtr \<and> \<not> IsRefined oTyp then []
         else if Decorator oTyp = IDPtr then [''!'' @ aPrefix env @ Name o']
         else if IsRefined oTyp then
           (let bounds = argBounds oTyp
            in boundCheck env o' 0 (fst bounds) @ boundCheck env o' 1 (snd bounds))
         else [])"

fun writeChecks :: "buffer \<Rightarrow> nat \<Rightarrow> string list \<Rightarrow> buffer" where
  "writeChecks b i [] = b"
| "writeChecks b i (c # cs) = writeChecks ((if i \<noteq> 0 then b @ '' || '' else b) @ c) (i + 1) cs"

definition writeFuncImplArgChecks :: "cgen_env \<Rightarrow> gen \<Rightarrow> buffer \<Rightarrow> Func \<Rightarrow> emit" where
  "writeFuncImplArgChecks env g b n =
     (let checks = concat (map (argChecks env) (InFields n))
      in if length checks = 0 then (None, g, b)
         else
           (let b = writeChecks (b @ ''if ('') 0 checks @ '') {'';
                b = (if suspendible (currFunk g) then
                       (if public (currFunk g)
                        then b @ ''self->private_impl.status = '' @ PKGPREFIX g @
                          ''ERROR_BAD_ARGUMENT;'' @ NL
                        else b) @
                       ''return '' @ PKGPREFIX g @ ''ERROR_BAD_ARGUMENT;'' @ NL @ NL
                     else if Receiver n \<noteq> (0, 0) then
                       b @ ''self->private_impl.status = '' @ PKGPREFIX g @
                         ''ERROR_BAD_ARGUMENT; return;''
                     else b @ ''return;'')
            in (None, g, b @ ''}'' @ NL)))"

text \<open>
  For the statement of what the checks are (these five are not functions of the
  source). \<open>naturalBounds\<close> is the range of the values of a numeric base type, and
  \<open>naturalBoundsOf\<close> that of a qualified name, which is a base type when its package is
  \<open>base\<close>. \<open>rangeCheck\<close> is the check of one bound of a refinement: none when the bound
  is absent or has no constant value, none when it is the natural bound, and otherwise
  the comparison of the argument with the bound. \<open>joinWith\<close> puts a separator between
  strings, and \<open>badArgument\<close> is the code that the function writes for the case that
  a check fails.
\<close>

definition naturalBounds :: "ID \<Rightarrow> (int \<times> int) option" where
  "naturalBounds name =
     (if name = IDI8 then Some (-128, 127)
      else if name = IDI16 then Some (-32768, 32767)
      else if name = IDI32 then Some (-2147483648, 2147483647)
      else if name = IDI64 then Some (-9223372036854775808, 9223372036854775807)
      else if name = IDU8 then Some (0, 255)
      else if name = IDU16 then Some (0, 65535)
      else if name = IDU32 then Some (0, 4294967295)
      else if name = IDU64 then Some (0, 18446744073709551615)
      else if name = IDBool then Some (0, 1)
      else None)"

definition naturalBoundsOf :: "ID \<times> ID \<Rightarrow> (int \<times> int) option" where
  "naturalBoundsOf qid = (if fst qid = IDBase then naturalBounds (snd qid) else None)"

definition rangeCheck :: "cgen_env \<Rightarrow> Field \<Rightarrow> string \<Rightarrow> int option \<Rightarrow> int option \<Rightarrow> string list" where
  "rangeCheck env o' op bound natural =
     (case bound of
        None \<Rightarrow> []
      | Some v \<Rightarrow>
          if natural = Some v then []
          else [aPrefix env @ Name o' @ '' '' @ op @ '' '' @ showInt v])"

fun joinWith :: "string \<Rightarrow> string list \<Rightarrow> string" where
  "joinWith sep [] = []"
| "joinWith sep [c] = c"
| "joinWith sep (c # d # cs) = c @ sep @ joinWith sep (d # cs)"

definition badArgument :: "gen \<Rightarrow> Func \<Rightarrow> string" where
  "badArgument g n =
     (if suspendible (currFunk g) then
        (if public (currFunk g)
         then ''self->private_impl.status = '' @ PKGPREFIX g @ ''ERROR_BAD_ARGUMENT;'' @ NL
         else []) @
        ''return '' @ PKGPREFIX g @ ''ERROR_BAD_ARGUMENT;'' @ NL @ NL
      else if Receiver n \<noteq> (0, 0) then
        ''self->private_impl.status = '' @ PKGPREFIX g @ ''ERROR_BAD_ARGUMENT; return;''
      else ''return;'')"


section \<open>Example inputs\<close>

text \<open>Concrete nodes at which the theorems below are evaluated.\<close>

definition exprData :: "nat \<Rightarrow> ID \<Rightarrow> ID \<Rightarrow> int option \<Rightarrow> NodeData" where
  "exprData a op ident cv =
     \<lparr>addr = a, kind = KExpr, flags = 0, constValue = cv, id0 = op, id1 = ident, id2 = 0,
      Suspendible = False, CallSuspendible = False, ProvenNotToSuspend = False\<rparr>"

definition typeData :: "nat \<Rightarrow> ID \<Rightarrow> ID \<Rightarrow> ID \<Rightarrow> NodeData" where
  "typeData a decorator pkg name =
     \<lparr>addr = a, kind = KOther, flags = 0, constValue = None, id0 = decorator, id1 = pkg,
      id2 = name, Suspendible = False, CallSuspendible = False, ProvenNotToSuspend = False\<rparr>"

text \<open>A literal with the value \<open>v\<close>, allocated at the address \<open>a\<close>.\<close>

definition literal :: "nat \<Rightarrow> int \<Rightarrow> Node" where
  "literal a v = Node (exprData a 0 0x400 (Some v)) None None None []"

text \<open>The variable \<open>x\<close> (some user identifier), which has no constant value.\<close>

definition variableX :: Node where
  "variableX = Node (exprData 5 0 0x401 None) None None None []"

text \<open>The literal \<open>3\<close>, and the sum \<open>1 + 2\<close>, which the checker has folded to 3.\<close>

definition three :: Node where
  "three = literal 1 3"

definition onePlusTwo :: Node where
  "onePlusTwo =
     Node (exprData 2 IDXBinaryPlus 0 (Some 3)) (Some (literal 3 1)) None (Some (literal 4 2)) []"

text \<open>
  The types \<open>base.u32[0..5]\<close>, \<open>base.u32[0..7]\<close> and a second occurrence of
  \<open>base.u32[0..5]\<close>, each with nodes of its own.
\<close>

definition u32_0_5 :: Node where
  "u32_0_5 =
     Node (typeData 10 0 IDBase IDU32) (Some (literal 11 0)) (Some (literal 12 5)) None []"

definition u32_0_7 :: Node where
  "u32_0_7 =
     Node (typeData 20 0 IDBase IDU32) (Some (literal 21 0)) (Some (literal 22 7)) None []"

definition u32_0_5_again :: Node where
  "u32_0_5_again =
     Node (typeData 30 0 IDBase IDU32) (Some (literal 31 0)) (Some (literal 32 5)) None []"

text \<open>
  The \<open>funk\<close> of a function without arguments or results, as \<open>gatherFuncImpl\<close> sets
  it up (every field it does not name is zero), and a generator state holding it.
\<close>

definition emptyFunc :: Func where
  "emptyFunc = \<lparr>Receiver = (0, 0), InFields = [], OutFields = []\<rparr>"

definition freshFunk :: funk where
  "freshFunk =
     \<lparr>astFunc = emptyFunc, cName = ''wuffs_demo__f'', jumpTargets = None, coroSuspPoint = 0,
      ioBinds = 0, tempW = 0, tempR = 0, public = False, suspendible = False,
      usesScratch = False, hasGotoOK = False, shortReads = []\<rparr>"

definition freshGen :: gen where
  "freshGen = \<lparr>pkgPrefix = ''wuffs_demo__'', PKGPREFIX = ''WUFFS_DEMO__'', currFunk = freshFunk\<rparr>"

text \<open>
  Stand-ins for the parameters of the model, for a package \<open>demo\<close> whose functions
  have no I/O arguments (so there are no derived variables to save or load) and call
  no built-in method: \<open>writeExpr\<close> refuses a depth beyond \<open>MaxExprDepth\<close>, as
  \<open>mightActuallySuspend\<close> and \<open>writeCallSuspendibles\<close> do, and otherwise writes the
  variable \<open>v_x\<close>; every user-defined call is written as \<open>wuffs_demo__decode(self)\<close>.
\<close>

definition demoWriteExpr :: "gen \<Rightarrow> buffer \<Rightarrow> Node \<Rightarrow> replacementPolicy \<Rightarrow> 32 word \<Rightarrow> emit" where
  "demoWriteExpr g b n rp depth =
     (if depth > 255 then (Some ErrExprDepth, g, b) else (None, g, b @ ''v_x''))"

definition demoNoDerivedVars :: "gen \<Rightarrow> buffer \<Rightarrow> Node \<Rightarrow> emit" where
  "demoNoDerivedVars g b n = (None, g, b)"

definition demoNoBuiltin :: "gen \<Rightarrow> buffer \<Rightarrow> Node \<Rightarrow> 32 word \<Rightarrow> emit" where
  "demoNoBuiltin g b n depth = (Some ErrNoSuchBuiltin, g, b)"

definition demoUserDefinedCall ::
  "gen \<Rightarrow> buffer \<Rightarrow> Node \<Rightarrow> replacementPolicy \<Rightarrow> 32 word \<Rightarrow> emit" where
  "demoUserDefinedCall g b n rp depth = (None, g, b @ ''wuffs_demo__decode(self)'')"

definition demoEnv :: cgen_env where
  "demoEnv =
     \<lparr>MaxExprDepth = 255, maxTemp = 10000, tPrefix = ''t_'', aPrefix = ''a_'',
      writeExpr = demoWriteExpr,
      writeSaveExprDerivedVars = demoNoDerivedVars,
      writeLoadExprDerivedVars = demoNoDerivedVars,
      writeBuiltinCallSuspendibles = demoNoBuiltin,
      writeExprUserDefinedCall = demoUserDefinedCall\<rparr>"

text \<open>
  The call \<open>this.decode?()\<close> of a user-defined suspendible function that is not proven
  not to suspend, and the same call under \<open>try\<close>.
\<close>

definition callData :: "nat \<Rightarrow> ID \<Rightarrow> bool \<Rightarrow> NodeData" where
  "callData a op proven =
     \<lparr>addr = a, kind = KExpr, flags = 0, constValue = None, id0 = op, id1 = 0, id2 = 0,
      Suspendible = True, CallSuspendible = True, ProvenNotToSuspend = proven\<rparr>"

definition plainCall :: Node where
  "plainCall = Node (callData 40 0x02 False) None None None []"

definition tryCall :: Node where
  "tryCall = Node (callData 41 IDTry False) None None None []"






text \<open>A suspendible function of the package.\<close>

definition suspendibleFunk :: funk where
  "suspendibleFunk = freshFunk\<lparr>public := True, suspendible := True\<rparr>"

definition suspendibleGen :: gen where
  "suspendibleGen = freshGen\<lparr>currFunk := suspendibleFunk\<rparr>"


text \<open>
  A function with one result of type \<open>base.u32\<close>, and generator states for this
  function, for the function without results and for a public suspendible function.
\<close>

definition twoFuncOut :: Func where
  "twoFuncOut = \<lparr>Receiver = (0, 0), InFields = [],
     OutFields = [\<lparr>Name = ''ret'', XType = \<lparr>Decorator = 0, IsRefined = False,
       Bounds = (None, None), QID = (IDBase, IDU32)\<rparr>\<rparr>]\<rparr>"

definition valueGen :: gen where
  "valueGen = freshGen\<lparr>currFunk := freshFunk\<lparr>astFunc := twoFuncOut\<rparr>\<rparr>"

text \<open>
  The arguments \<open>dst ptr base.image_buffer\<close>, \<open>x base.u8[0..255]\<close>,
  \<open>y base.u32[0..5]\<close> and \<open>z base.i8[-5..127]\<close>, and two functions taking \<open>x\<close> alone
  and all four of them.
\<close>

definition argDst :: Field where
  "argDst = \<lparr>Name = ''dst'', XType = \<lparr>Decorator = IDPtr, IsRefined = False,
     Bounds = (None, None), QID = (IDBase, IDImageBuffer)\<rparr>\<rparr>"

definition argX :: Field where
  "argX = \<lparr>Name = ''x'', XType = \<lparr>Decorator = 0, IsRefined = True,
     Bounds = (Some (literal 50 0), Some (literal 51 255)), QID = (IDBase, IDU8)\<rparr>\<rparr>"

definition argY :: Field where
  "argY = \<lparr>Name = ''y'', XType = \<lparr>Decorator = 0, IsRefined = True,
     Bounds = (Some (literal 52 0), Some (literal 53 5)), QID = (IDBase, IDU32)\<rparr>\<rparr>"

definition argZ :: Field where
  "argZ = \<lparr>Name = ''z'', XType = \<lparr>Decorator = 0, IsRefined = True,
     Bounds = (Some (literal 54 (-5)), Some (literal 55 127)), QID = (IDBase, IDI8)\<rparr>\<rparr>"

definition funcOfX :: Func where
  "funcOfX = \<lparr>Receiver = (0, 0), InFields = [argX], OutFields = []\<rparr>"

definition funcOfAll :: Func where
  "funcOfAll = \<lparr>Receiver = (0, 0), InFields = [argDst, argX, argY, argZ], OutFields = []\<rparr>"


section \<open>Properties of package token\<close>

subsection \<open>What addXForms computes\<close>

lemma markImplicit_Some:
  "markImplicit ys imp = Some imp' \<Longrightarrow>
     length imp' = length imp \<and>
     (\<forall>y \<in> set ys. y \<noteq> 0 \<longrightarrow> y < length imp) \<and>
     (\<forall>i < length imp. imp' ! i = (imp ! i \<or> (i \<in> set ys \<and> i \<noteq> 0)))"
proof (induction ys arbitrary: imp)
  case Nil
  then show ?case by simp
next
  case (Cons y ys)
  show ?case
  proof (cases "y = 0")
    case True
    with Cons.prems have "markImplicit ys imp = Some imp'" by simp
    from Cons.IH [OF this] True show ?thesis by auto
  next
    case False
    with Cons.prems have lt: "y < length imp" and
      rec: "markImplicit ys (imp[y := True]) = Some imp'"
      by (auto split: if_splits)
    from Cons.IH [OF rec] lt False show ?thesis
      by (auto simp: nth_list_update)
  qed
qed

lemma markImplicit_None:
  "markImplicit ys imp = None \<Longrightarrow> \<exists>y \<in> set ys. y \<noteq> 0 \<and> \<not> y < length imp"
proof (induction ys arbitrary: imp)
  case Nil
  then show ?case by simp
next
  case (Cons y ys)
  show ?case
  proof (cases "y \<noteq> 0 \<and> \<not> y < length imp")
    case True
    then show ?thesis by auto
  next
    case False
    with Cons.prems have
      "markImplicit ys imp = None \<or> markImplicit ys (imp[y := True]) = None"
      by (auto split: if_splits)
    then show ?thesis
    proof
      assume "markImplicit ys imp = None"
      from Cons.IH [OF this] show ?thesis by auto
    next
      assume "markImplicit ys (imp[y := True]) = None"
      from Cons.IH [OF this] show ?thesis by auto
    qed
  qed
qed

lemma setImplicit_length: "length (setImplicit ps t) = length t"
  by (induction ps t rule: setImplicit.induct) auto

lemma setImplicit_enumerate:
  "i < length t \<Longrightarrow>
   setImplicit (enumerate k imp) t ! i =
     (if k \<le> i \<and> i < k + length imp \<and> imp ! (i - k) then i else t ! i)"
proof (induction imp arbitrary: k t)
  case Nil
  then show ?case by simp
next
  case (Cons b imp)
  then show ?case
    by (auto simp: nth_list_update nth_Cons' Suc_diff_le split: if_splits)
qed

lemma addXForms_nth:
  assumes ok: "addXForms t = Some t'" and len: "length t = nBuiltInSymbolicIDs"
  shows "length t' = length t"
    and "\<forall>y \<in> set t. y \<noteq> 0 \<longrightarrow> y < length t"
    and "\<forall>i < length t. t' ! i = (if i \<in> set t \<and> i \<noteq> 0 then i else t ! i)"
proof -
  from ok obtain imp where
    m: "markImplicit t (replicate nBuiltInSymbolicIDs False) = Some imp" and
    t': "t' = setImplicit (enumerate 0 imp) t"
    by (auto simp: addXForms_def split: option.splits)
  from markImplicit_Some [OF m] have
    li: "length imp = nBuiltInSymbolicIDs" and
    bound: "\<forall>y \<in> set t. y \<noteq> 0 \<longrightarrow> y < nBuiltInSymbolicIDs" and
    flags: "\<forall>i < nBuiltInSymbolicIDs. imp ! i = (i \<in> set t \<and> i \<noteq> 0)"
    by auto
  show "length t' = length t"
    by (simp add: t' setImplicit_length)
  show "\<forall>y \<in> set t. y \<noteq> 0 \<longrightarrow> y < length t"
    using bound len by simp
  show "\<forall>i < length t. t' ! i = (if i \<in> set t \<and> i \<noteq> 0 then i else t ! i)"
    using flags li len by (simp add: t' setImplicit_enumerate)
qed

lemma addXForms_closed:
  assumes ok: "addXForms t = Some t'" and len: "length t = nBuiltInSymbolicIDs"
    and x: "x < length t'" and nz: "t' ! x \<noteq> 0"
  shows "t' ! x < length t' \<and> t' ! (t' ! x) = t' ! x"
proof -
  note facts = addXForms_nth [OF ok len]
  from x facts(1) have xt: "x < length t" by simp
  show ?thesis
  proof (cases "x \<in> set t \<and> x \<noteq> 0")
    case True
    from facts(3) [rule_format, OF xt] True have "t' ! x = x" by simp
    with x show ?thesis by simp
  next
    case False
    from facts(3) [rule_format, OF xt] False have eq: "t' ! x = t ! x" by auto
    with nz xt have mem: "t ! x \<in> set t" and nz': "t ! x \<noteq> 0" by auto
    with facts(2) have lt: "t ! x < length t" by blast
    from facts(3) [rule_format, OF lt] mem nz' have "t' ! (t ! x) = t ! x" by simp
    with eq lt facts(1) show ?thesis by simp
  qed
qed

lemma arrayLit_length: "length (arrayLit n kvs) = n"
  by (induction n kvs rule: arrayLit.induct) auto

lemma arrayLit_set: "set (arrayLit n kvs) \<subseteq> insert 0 (snd ` set kvs)"
proof (induction n kvs rule: arrayLit.induct)
  case (1 n)
  then show ?case by auto
next
  case (2 n k v kvs)
  have "set ((arrayLit n kvs)[k := v]) \<subseteq> insert v (set (arrayLit n kvs))"
    by (rule set_update_subset_insert)
  with 2 show ?case by auto
qed

lemma addXForms_arrayLit_Some:
  assumes "\<forall>v \<in> snd ` set kvs. v < nBuiltInSymbolicIDs"
  shows "\<exists>t'. addXForms (arrayLit nBuiltInSymbolicIDs kvs) = Some t'"
proof (cases "addXForms (arrayLit nBuiltInSymbolicIDs kvs)")
  case None
  then have "markImplicit (arrayLit nBuiltInSymbolicIDs kvs)
      (replicate nBuiltInSymbolicIDs False) = None"
    by (simp add: addXForms_def split: option.splits)
  from markImplicit_None [OF this] obtain y where
    "y \<in> set (arrayLit nBuiltInSymbolicIDs kvs)" "y \<noteq> 0" "\<not> y < nBuiltInSymbolicIDs"
    by auto
  with arrayLit_set [of nBuiltInSymbolicIDs kvs] assms show ?thesis by auto
next
  case (Some t')
  then show ?thesis by simp
qed

lemma arrayLit_nth_unset:
  "k \<notin> fst ` set kvs \<Longrightarrow> k < n \<Longrightarrow> arrayLit n kvs ! k = 0"
  by (induction n kvs rule: arrayLit.induct) (auto simp: nth_list_update)

lemma form_table_idem:
  assumes ok: "addXForms t = Some t'" and len: "length t = nBuiltInSymbolicIDs"
    and zero: "t ! 0 = 0"
  shows "(if (if x \<ge> length t' then 0 else t' ! x) \<ge> length t' then 0
          else t' ! (if x \<ge> length t' then 0 else t' ! x)) =
         (if x \<ge> length t' then 0 else t' ! x)"
proof -
  note facts = addXForms_nth [OF ok len]
  have pos: "0 < length t" by (simp add: len nBuiltInSymbolicIDs_def)
  from facts(3) [rule_format, OF pos] zero have z: "t' ! 0 = 0" by simp
  show ?thesis
  proof (cases "x \<ge> length t' \<or> t' ! x = 0")
    case True
    with z show ?thesis by auto
  next
    case False
    then have "x < length t'" "t' ! x \<noteq> 0" by auto
    from addXForms_closed [OF ok len this] False show ?thesis by auto
  qed
qed

subsection \<open>The tables after initialisation\<close>

lemma unaryForms_init: "addXForms unaryFormsLit = Some unaryForms"
proof -
  have "\<exists>t'. addXForms unaryFormsLit = Some t'"
    unfolding unaryFormsLit_def
    by (rule addXForms_arrayLit_Some) (simp add: nBuiltInSymbolicIDs_def)
  then show ?thesis by (auto simp: unaryForms_def)
qed

lemma binaryForms_init: "addXForms binaryFormsLit = Some binaryForms"
proof -
  have "\<exists>t'. addXForms binaryFormsLit = Some t'"
    unfolding binaryFormsLit_def
    by (rule addXForms_arrayLit_Some) (simp add: nBuiltInSymbolicIDs_def)
  then show ?thesis by (auto simp: binaryForms_def)
qed

lemma associativeForms_init: "addXForms associativeFormsLit = Some associativeForms"
proof -
  have "\<exists>t'. addXForms associativeFormsLit = Some t'"
    unfolding associativeFormsLit_def
    by (rule addXForms_arrayLit_Some) (simp add: nBuiltInSymbolicIDs_def)
  then show ?thesis by (auto simp: associativeForms_def)
qed

lemma formsLit_length:
  "length unaryFormsLit = nBuiltInSymbolicIDs"
  "length binaryFormsLit = nBuiltInSymbolicIDs"
  "length associativeFormsLit = nBuiltInSymbolicIDs"
  by (simp_all add: unaryFormsLit_def binaryFormsLit_def associativeFormsLit_def
      arrayLit_length)

lemma formsLit_zero:
  "unaryFormsLit ! 0 = 0" "binaryFormsLit ! 0 = 0" "associativeFormsLit ! 0 = 0"
  unfolding unaryFormsLit_def binaryFormsLit_def associativeFormsLit_def
  by (rule arrayLit_nth_unset; simp add: nBuiltInSymbolicIDs_def)+

lemma forms_length:
  "length unaryForms = nBuiltInSymbolicIDs"
  "length binaryForms = nBuiltInSymbolicIDs"
  "length associativeForms = nBuiltInSymbolicIDs"
  using addXForms_nth(1) [OF unaryForms_init formsLit_length(1)]
    addXForms_nth(1) [OF binaryForms_init formsLit_length(2)]
    addXForms_nth(1) [OF associativeForms_init formsLit_length(3)]
  by (simp_all add: formsLit_length)

text \<open>The tables, entry by entry (IDs \<open>0x00\<close> to \<open>0x6F\<close>, sixteen to a line).\<close>

lemma unaryForms_eval: "unaryForms =
  [0, 0, 0, 0, 0, 0, 0, 0, 0, 0, 0, 0, 0, 0, 0, 0,
   0, 0, 0, 0, 0, 0, 0, 0, 0, 0, 0, 0, 0, 0, 0, 0,
   0, 0x40, 0x41, 0, 0, 0, 0, 0, 0, 0, 0, 0, 0, 0, 0, 0,
   0, 0, 0, 0, 0, 0, 0, 0, 0, 0, 0x42, 0, 0x43, 0x44, 0, 0,
   0x40, 0x41, 0x42, 0x43, 0x44, 0, 0, 0, 0, 0, 0, 0, 0, 0, 0, 0,
   0, 0, 0, 0, 0, 0, 0, 0, 0, 0, 0, 0, 0, 0, 0, 0,
   0, 0, 0, 0, 0, 0, 0, 0, 0, 0, 0, 0, 0, 0, 0, 0]"
  by code_simp

lemma binaryForms_eval: "binaryForms =
  [0, 0, 0, 0, 0, 0, 0, 0, 0, 0, 0, 0, 0, 0, 0, 0,
   0, 0x48, 0x49, 0x4A, 0x4B, 0x4C, 0x4D, 0x4E, 0x4F, 0x50, 0x51, 0x52, 0x53, 0x54, 0x55, 0,
   0, 0x48, 0x49, 0x4A, 0x4B, 0x4C, 0x4D, 0x4E, 0x4F, 0x50, 0x51, 0x52, 0x53, 0x54, 0x55, 0,
   0x56, 0x57, 0x58, 0x59, 0x5A, 0x5B, 0, 0, 0x5C, 0x5D, 0, 0x5E, 0, 0, 0, 0,
   0, 0, 0, 0, 0, 0, 0, 0, 0x48, 0x49, 0x4A, 0x4B, 0x4C, 0x4D, 0x4E, 0x4F,
   0x50, 0x51, 0x52, 0x53, 0x54, 0x55, 0x56, 0x57, 0x58, 0x59, 0x5A, 0x5B, 0x5C, 0x5D, 0x5E, 0,
   0, 0, 0, 0, 0, 0, 0, 0, 0, 0, 0, 0, 0, 0, 0, 0]"
  by code_simp

lemma associativeForms_eval: "associativeForms =
  [0, 0, 0, 0, 0, 0, 0, 0, 0, 0, 0, 0, 0, 0, 0, 0,
   0, 0, 0, 0, 0, 0, 0, 0, 0, 0, 0, 0, 0, 0, 0, 0,
   0, 0x60, 0, 0x61, 0, 0, 0, 0x62, 0x63, 0x64, 0, 0, 0, 0, 0, 0,
   0, 0, 0, 0, 0, 0, 0, 0, 0x65, 0x66, 0, 0, 0, 0, 0, 0,
   0, 0, 0, 0, 0, 0, 0, 0, 0, 0, 0, 0, 0, 0, 0, 0,
   0, 0, 0, 0, 0, 0, 0, 0, 0, 0, 0, 0, 0, 0, 0, 0,
   0x60, 0x61, 0x62, 0x63, 0x64, 0x65, 0x66, 0, 0, 0, 0, 0, 0, 0, 0, 0]"
  by code_simp

subsection \<open>Fixed points of the form tables\<close>

text \<open>
  Claim C3. After initialisation (\<open>init\<close> runs \<open>addXForms\<close> on the three literals, and
  none of the runs panics), each of \<open>unaryForms\<close>, \<open>binaryForms\<close> and
  \<open>associativeForms\<close> has \<open>nBuiltInSymbolicIDs\<close> entries and is closed under its own
  entries: whenever \<open>table[x] = y\<close> with \<open>y \<noteq> 0\<close>, \<open>y\<close> is an index of the table and
  \<open>table[y] = y\<close>. Hence \<open>UnaryForm\<close>, \<open>BinaryForm\<close> and \<open>AssociativeForm\<close> are
  idempotent on every ID.
\<close>

theorem form_tables_fixed_point:
  "addXForms unaryFormsLit = Some unaryForms \<and>
   addXForms binaryFormsLit = Some binaryForms \<and>
   addXForms associativeFormsLit = Some associativeForms \<and>
   (\<forall>table \<in> {unaryForms, binaryForms, associativeForms}.
      length table = nBuiltInSymbolicIDs \<and>
      (\<forall>x y. x < length table \<and> table ! x = y \<and> y \<noteq> 0 \<longrightarrow>
         y < length table \<and> table ! y = y)) \<and>
   (\<forall>x. UnaryForm (UnaryForm x) = UnaryForm x \<and>
        BinaryForm (BinaryForm x) = BinaryForm x \<and>
        AssociativeForm (AssociativeForm x) = AssociativeForm x)"
proof -
  have closed: "\<forall>x y. x < length t' \<and> t' ! x = y \<and> y \<noteq> 0 \<longrightarrow>
      y < length t' \<and> t' ! y = y"
    if "addXForms t = Some t'" "length t = nBuiltInSymbolicIDs" for t t'
    using addXForms_closed [OF that] by blast
  have u: "\<forall>x. UnaryForm (UnaryForm x) = UnaryForm x"
    unfolding UnaryForm_def
    using form_table_idem [OF unaryForms_init formsLit_length(1) formsLit_zero(1)]
    by blast
  have b: "\<forall>x. BinaryForm (BinaryForm x) = BinaryForm x"
    unfolding BinaryForm_def
    using form_table_idem [OF binaryForms_init formsLit_length(2) formsLit_zero(2)]
    by blast
  have a: "\<forall>x. AssociativeForm (AssociativeForm x) = AssociativeForm x"
    unfolding AssociativeForm_def
    using form_table_idem [OF associativeForms_init formsLit_length(3) formsLit_zero(3)]
    by blast
  have tabs: "length table = nBuiltInSymbolicIDs \<and>
      (\<forall>x y. x < length table \<and> table ! x = y \<and> y \<noteq> 0 \<longrightarrow>
         y < length table \<and> table ! y = y)"
    if "table \<in> {unaryForms, binaryForms, associativeForms}" for table
  proof -
    from that consider "table = unaryForms" | "table = binaryForms"
      | "table = associativeForms" by blast
    then show ?thesis
    proof cases
      case 1
      with closed [OF unaryForms_init formsLit_length(1)] forms_length(1)
      show ?thesis by blast
    next
      case 2
      with closed [OF binaryForms_init formsLit_length(2)] forms_length(2)
      show ?thesis by blast
    next
      case 3
      with closed [OF associativeForms_init formsLit_length(3)] forms_length(3)
      show ?thesis by blast
    qed
  qed
  from u b a have idem: "\<forall>x. UnaryForm (UnaryForm x) = UnaryForm x \<and>
        BinaryForm (BinaryForm x) = BinaryForm x \<and>
        AssociativeForm (AssociativeForm x) = AssociativeForm x"
    by blast
  show ?thesis
    by (intro conjI ballI unaryForms_init binaryForms_init associativeForms_init idem)
      (use tabs in blast)+
qed

text \<open>
  The theorem at \<open>+\<close>: \<open>unaryForms[IDPlus]\<close> is \<open>IDXUnaryPlus\<close>, which is not zero, so
  \<open>unaryForms[IDXUnaryPlus]\<close> is \<open>IDXUnaryPlus\<close> again.
\<close>

theorem form_tables_fixed_point_witness:
  "IDPlus < length unaryForms \<and> unaryForms ! IDPlus = IDXUnaryPlus \<and>
   IDXUnaryPlus \<noteq> (0 :: ID) \<and>
   IDXUnaryPlus < length unaryForms \<and> unaryForms ! IDXUnaryPlus = IDXUnaryPlus \<and>
   UnaryForm (UnaryForm IDPlus) = UnaryForm IDPlus"
proof -
  have h: "IDPlus < length unaryForms \<and> unaryForms ! IDPlus = IDXUnaryPlus \<and>
      IDXUnaryPlus \<noteq> (0 :: ID)"
    by (simp add: unaryForms_eval)
  have "unaryForms \<in> {unaryForms, binaryForms, associativeForms}" by simp
  with form_tables_fixed_point have
    "\<forall>x y. x < length unaryForms \<and> unaryForms ! x = y \<and> y \<noteq> 0 \<longrightarrow>
       y < length unaryForms \<and> unaryForms ! y = y"
    by blast
  moreover from form_tables_fixed_point have
    "UnaryForm (UnaryForm IDPlus) = UnaryForm IDPlus"
    by blast
  ultimately show ?thesis using h by blast
qed

subsection \<open>The operator predicates outside the operator range\<close>

lemma assign_op_cases:
  "(0x11 :: nat) \<le> x \<Longrightarrow> x \<le> 0x1E \<Longrightarrow>
   x \<in> {0x11, 0x12, 0x13, 0x14, 0x15, 0x16, 0x17, 0x18, 0x19, 0x1A, 0x1B, 0x1C, 0x1D, 0x1E}"
  by (simp only: insert_iff empty_iff) arith

text \<open>
  Claim C10, as stated, fails: the claim says that \<open>BinaryForm(x)\<close> is non-zero for
  every assignment operator \<open>x\<close> in \<open>0x10..0x1F\<close>, but \<open>binaryForms\<close> has no entry for
  the plain assignment \<open>=\<close> (\<open>IDEq\<close>, \<open>0x10\<close>), which is an assignment operator.
\<close>

theorem assign_binary_form_counterexample:
  "IsAssign IDEq \<and> BinaryForm IDEq = 0"
  by (simp add: IsAssign_def BinaryForm_def binaryForms_eval)

text \<open>
  Claim C10, amended. For every ID \<open>x\<close> outside \<open>minOp..maxOp\<close> (\<open>0x20..0x6F\<close>),
  \<open>IsUnaryOp\<close>, \<open>IsBinaryOp\<close> and \<open>IsAssociativeOp\<close> are false, whatever the tables
  hold. In particular, for every compound assignment operator \<open>x\<close> in \<open>0x11..0x1E\<close>
  (\<open>+=\<close> to \<open>~sat-=\<close>), \<open>BinaryForm(x)\<close> is a non-zero X-binary ID, the one of the
  operator \<open>x + 0x10\<close> it is built from, yet \<open>IsBinaryOp(x)\<close> is false. The two other
  assignment operators, \<open>=\<close> (\<open>0x10\<close>) and \<open>=:\<close> (\<open>0x1F\<close>), have the binary form 0.
\<close>

theorem ops_outside_operator_range:
  "(\<forall>x. \<not> (minOp \<le> x \<and> x \<le> maxOp) \<longrightarrow>
      \<not> IsUnaryOp x \<and> \<not> IsBinaryOp x \<and> \<not> IsAssociativeOp x) \<and>
   (\<forall>x. IDPlusEq \<le> x \<and> x \<le> IDTildeSatMinusEq \<longrightarrow>
      IsAssign x \<and> BinaryForm x \<noteq> 0 \<and> IsXBinaryOp (BinaryForm x) \<and>
      BinaryForm x = BinaryForm (x + 0x10) \<and> \<not> IsBinaryOp x) \<and>
   BinaryForm IDEq = 0 \<and> BinaryForm IDEqColon = 0"
proof -
  have outside: "\<not> IsUnaryOp x \<and> \<not> IsBinaryOp x \<and> \<not> IsAssociativeOp x"
    if "\<not> (minOp \<le> x \<and> x \<le> maxOp)" for x
    using that by (auto simp: IsUnaryOp_def IsBinaryOp_def IsAssociativeOp_def)
  have compound: "IsAssign x \<and> BinaryForm x \<noteq> 0 \<and> IsXBinaryOp (BinaryForm x) \<and>
      BinaryForm x = BinaryForm (x + 0x10) \<and> \<not> IsBinaryOp x"
    if "IDPlusEq \<le> x \<and> x \<le> IDTildeSatMinusEq" for x
  proof -
    from that have
      "x \<in> {0x11, 0x12, 0x13, 0x14, 0x15, 0x16, 0x17, 0x18, 0x19, 0x1A, 0x1B, 0x1C, 0x1D, 0x1E}"
      using assign_op_cases [of x] by blast
    then show ?thesis
      by (auto simp: IsAssign_def BinaryForm_def IsXBinaryOp_def IsBinaryOp_def
          binaryForms_eval)
  qed
  have plain: "BinaryForm IDEq = 0 \<and> BinaryForm IDEqColon = 0"
    by (simp add: BinaryForm_def binaryForms_eval)
  from outside compound plain show ?thesis by blast
qed

text \<open>The theorem at \<open>+=\<close>, which is outside the operator range and in \<open>0x11..0x1E\<close>.\<close>

theorem ops_outside_operator_range_witness:
  "\<not> (minOp \<le> IDPlusEq \<and> IDPlusEq \<le> maxOp) \<and>
   IDPlusEq \<le> IDPlusEq \<and> IDPlusEq \<le> IDTildeSatMinusEq \<and>
   \<not> IsUnaryOp IDPlusEq \<and> \<not> IsBinaryOp IDPlusEq \<and> \<not> IsAssociativeOp IDPlusEq \<and>
   BinaryForm IDPlusEq \<noteq> 0 \<and> IsXBinaryOp (BinaryForm IDPlusEq) \<and>
   BinaryForm IDPlusEq = BinaryForm IDPlus"
proof -
  have h1: "\<not> (minOp \<le> IDPlusEq \<and> IDPlusEq \<le> maxOp)" by simp
  have h2: "IDPlusEq \<le> IDPlusEq \<and> IDPlusEq \<le> IDTildeSatMinusEq" by simp
  from ops_outside_operator_range h1 have
    "\<not> IsUnaryOp IDPlusEq \<and> \<not> IsBinaryOp IDPlusEq \<and> \<not> IsAssociativeOp IDPlusEq"
    by blast
  moreover from ops_outside_operator_range h2 have
    "BinaryForm IDPlusEq \<noteq> 0 \<and> IsXBinaryOp (BinaryForm IDPlusEq) \<and>
     BinaryForm IDPlusEq = BinaryForm (IDPlusEq + 0x10)"
    by blast
  moreover have "IDPlusEq + 0x10 = IDPlus" by simp
  ultimately show ?thesis using h1 h2 by metis
qed

subsection \<open>The suffix lexers and greedy lexing\<close>

lemma firstMatch_fallback:
  "xs \<noteq> [] \<Longrightarrow> fst (last xs) = [] \<Longrightarrow> \<exists>x n. firstMatch xs rest = Some (x, n)"
proof (induction xs)
  case Nil
  then show ?case by simp
next
  case (Cons e xs)
  obtain sfx x where e: "e = (sfx, x)" by (cases e)
  show ?case
  proof (cases "xs = []")
    case True
    with Cons.prems e show ?thesis by simp
  next
    case False
    with Cons e show ?thesis by auto
  qed
qed

text \<open>
  Claim C4, as stated, fails: the list of \<open>~\<close> is not empty and its last entry is
  \<open>{"sat-", IDTildeSatMinus}\<close>, whose suffix is not empty. A lone \<open>~\<close> is no token of
  the language, and the lexer has no result for it.
\<close>

theorem lexers_tilde_counterexample:
  "lexers (CHR ''~'') \<noteq> [] \<and>
   last (lexers (CHR ''~'')) = (''sat-'', IDTildeSatMinus) \<and>
   fst (last (lexers (CHR ''~''))) \<noteq> [] \<and>
   lexSquiggle ''~'' = None"
  by (simp add: lexers_def)

text \<open>
  Claim C4, amended. For every starting byte other than \<open>~\<close> whose suffix-lexer list
  is not empty, the last entry of the list has the empty suffix, so lexing at such a
  byte always yields a token; the list of \<open>~\<close> ends with \<open>{"sat-", IDTildeSatMinus}\<close> and
  has no single-character fallback. The greedy lexer (the first matching suffix wins)
  maps \<open><<=\<close> to \<open>IDShiftLEq\<close>, \<open><<\<close> to \<open>IDShiftL\<close>, \<open><=\<close> to \<open>IDLessEq\<close>, \<open><\<close> to
  \<open>IDLessThan\<close>, \<open>~sat+=\<close> to \<open>IDTildeSatPlusEq\<close> and \<open>~mod-\<close> to \<open>IDTildeModMinus\<close>,
  consuming the whole input each time.
\<close>

theorem lexers_fallback_and_greedy:
  "(\<forall>c. lexers c \<noteq> [] \<and> c \<noteq> CHR ''~'' \<longrightarrow>
      fst (last (lexers c)) = [] \<and> (\<forall>rest. \<exists>x n. lexSquiggle (c # rest) = Some (x, n))) \<and>
   last (lexers (CHR ''~'')) = (''sat-'', IDTildeSatMinus) \<and>
   lexSquiggle ''<<='' = Some (IDShiftLEq, 3) \<and>
   lexSquiggle ''<<'' = Some (IDShiftL, 2) \<and>
   lexSquiggle ''<='' = Some (IDLessEq, 2) \<and>
   lexSquiggle ''<'' = Some (IDLessThan, 1) \<and>
   lexSquiggle ''~sat+='' = Some (IDTildeSatPlusEq, 6) \<and>
   lexSquiggle ''~mod-'' = Some (IDTildeModMinus, 5)"
proof -
  have last_empty: "fst (last (lexers c)) = []" if "lexers c \<noteq> [] \<and> c \<noteq> CHR ''~''" for c
    using that by (simp add: lexers_def split: if_splits)
  have fallback: "\<exists>x n. lexSquiggle (c # rest) = Some (x, n)"
    if "lexers c \<noteq> [] \<and> c \<noteq> CHR ''~''" for c rest
    using that firstMatch_fallback [of "lexers c" rest] last_empty [of c] by simp
  have tilde: "last (lexers (CHR ''~'')) = (''sat-'', IDTildeSatMinus)"
    by (simp add: lexers_def)
  have munch:
    "lexSquiggle ''<<='' = Some (IDShiftLEq, 3)"
    "lexSquiggle ''<<'' = Some (IDShiftL, 2)"
    "lexSquiggle ''<='' = Some (IDLessEq, 2)"
    "lexSquiggle ''<'' = Some (IDLessThan, 1)"
    "lexSquiggle ''~sat+='' = Some (IDTildeSatPlusEq, 6)"
    "lexSquiggle ''~mod-'' = Some (IDTildeModMinus, 5)"
    by (simp_all add: lexers_def)
  from last_empty fallback tilde munch show ?thesis by blast
qed

text \<open>The theorem at the byte \<open><\<close>, whose list has four entries.\<close>

theorem lexers_fallback_and_greedy_witness:
  "lexers (CHR ''<'') \<noteq> [] \<and> CHR ''<'' \<noteq> CHR ''~'' \<and>
   fst (last (lexers (CHR ''<''))) = [] \<and>
   (\<exists>x n. lexSquiggle ''<>'' = Some (x, n))"
proof -
  have h: "lexers (CHR ''<'') \<noteq> [] \<and> CHR ''<'' \<noteq> CHR ''~''"
    by (simp add: lexers_def)
  from lexers_fallback_and_greedy h have
    "fst (last (lexers (CHR ''<''))) = [] \<and>
     (\<forall>rest. \<exists>x n. lexSquiggle (CHR ''<'' # rest) = Some (x, n))"
    by blast
  then have "fst (last (lexers (CHR ''<''))) = [] \<and>
     (\<exists>x n. lexSquiggle (CHR ''<'' # ''>'') = Some (x, n))"
    by blast
  with h show ?thesis by simp
qed

section \<open>Properties of package ast\<close>

subsection \<open>Expr.Eq\<close>

lemma Expr_Eq_refl: "Expr_Eq fm e e"
proof (cases e)
  case None
  then show ?thesis by simp
next
  case (Some a)
  then show ?thesis by (cases a) simp
qed

lemma Expr_Eq_const:
  assumes "sameHeap a b" and "constValue (dat a) = Some va" and "constValue (dat b) = Some vb"
  shows "Expr_Eq fm (Some a) (Some b) = (va = vb)"
proof -
  obtain dn ln mn rn xn where a: "a = Node dn ln mn rn xn" by (cases a)
  obtain do lo mo ro xo where b: "b = Node do lo mo ro xo" by (cases b)
  show ?thesis
  proof (cases "addr dn = addr do")
    case True
    with assms(1) a b have "a = b" by (simp add: sameHeap_def)
    with assms(2,3) have "va = vb" by simp
    with True a b show ?thesis by simp
  next
    case False
    with assms(2,3) a b show ?thesis by simp
  qed
qed

lemma Expr_Eq_id0:
  assumes "sameHeap a b" and "id0 (dat a) \<noteq> id0 (dat b)"
    and "constValue (dat a) = None \<or> constValue (dat b) = None"
  shows "\<not> Expr_Eq fm (Some a) (Some b)"
proof -
  obtain dn ln mn rn xn where a: "a = Node dn ln mn rn xn" by (cases a)
  obtain do lo mo ro xo where b: "b = Node do lo mo ro xo" by (cases b)
  from assms(1,2) have "addr (dat a) \<noteq> addr (dat b)"
    by (auto simp: sameHeap_def)
  with assms(2,3) a b show ?thesis by auto
qed

text \<open>
  Claim C5, as stated, fails: the literal \<open>3\<close> (no operator, \<open>id0 = 0\<close>) and the sum
  \<open>1 + 2\<close> (\<open>id0 = IDXBinaryPlus\<close>) differ in \<open>id0\<close>, but both carry the constant value
  3, and \<open>Eq\<close> returns true, as the comment on \<open>Expr.Eq\<close> says it will.
\<close>

theorem Expr_Eq_id0_counterexample:
  "id0 (dat three) \<noteq> id0 (dat onePlusTwo) \<and> sameHeap three onePlusTwo \<and>
   Expr_Eq 0xFF (Some three) (Some onePlusTwo)"
  by (simp add: three_def onePlusTwo_def literal_def exprData_def sameHeap_def)

text \<open>
  Claim C5, amended. For every expression \<open>e\<close> (\<open>nil\<close> included), \<open>e.Eq(e)\<close> is true.
  For every pair of expressions that differ in \<open>id0\<close> and do not both carry a constant
  value, \<open>Eq\<close> returns false. For every pair of expressions that both carry constant
  values, \<open>Eq\<close> returns true exactly when the values are equal, whatever the shape of
  the two expressions (so also when they differ in \<open>id0\<close>).
\<close>

theorem Expr_Eq_laws:
  "(\<forall>e. Expr_Eq fm e e) \<and>
   (\<forall>a b. sameHeap a b \<and> id0 (dat a) \<noteq> id0 (dat b) \<and>
      (constValue (dat a) = None \<or> constValue (dat b) = None) \<longrightarrow>
      \<not> Expr_Eq fm (Some a) (Some b)) \<and>
   (\<forall>a b va vb. sameHeap a b \<and> constValue (dat a) = Some va \<and>
      constValue (dat b) = Some vb \<longrightarrow>
      Expr_Eq fm (Some a) (Some b) = (va = vb))"
  using Expr_Eq_refl Expr_Eq_const Expr_Eq_id0 by blast

text \<open>
  The theorem at \<open>x\<close> and \<open>1 + 2\<close> (different \<open>id0\<close>, \<open>x\<close> is not constant: not equal),
  and at \<open>3\<close> and \<open>1 + 2\<close> (both constant, both 3: equal).
\<close>

theorem Expr_Eq_laws_witness:
  "sameHeap variableX onePlusTwo \<and> id0 (dat variableX) \<noteq> id0 (dat onePlusTwo) \<and>
   constValue (dat variableX) = None \<and>
   \<not> Expr_Eq 0xFF (Some variableX) (Some onePlusTwo) \<and>
   sameHeap three onePlusTwo \<and> constValue (dat three) = Some 3 \<and>
   constValue (dat onePlusTwo) = Some 3 \<and>
   Expr_Eq 0xFF (Some three) (Some onePlusTwo) \<and>
   Expr_Eq 0xFF (Some onePlusTwo) (Some onePlusTwo)"
proof -
  have h1: "sameHeap variableX onePlusTwo \<and> id0 (dat variableX) \<noteq> id0 (dat onePlusTwo) \<and>
      constValue (dat variableX) = None"
    by (simp add: variableX_def onePlusTwo_def exprData_def sameHeap_def)
  have h2: "sameHeap three onePlusTwo \<and> constValue (dat three) = Some 3 \<and>
      constValue (dat onePlusTwo) = Some 3"
    by (simp add: three_def onePlusTwo_def literal_def exprData_def sameHeap_def)
  note laws = Expr_Eq_laws [of "0xFF"]
  from laws h1 have "\<not> Expr_Eq 0xFF (Some variableX) (Some onePlusTwo)" by blast
  moreover from laws h2 have
    "Expr_Eq 0xFF (Some three) (Some onePlusTwo) = ((3 :: int) = 3)" by blast
  moreover from laws have "Expr_Eq 0xFF (Some onePlusTwo) (Some onePlusTwo)" by blast
  ultimately show ?thesis using h1 h2 by simp
qed

subsection \<open>TypeExpr.Eq and TypeExpr.EqIgnoringRefinements\<close>

lemma TypeExpr_eq_mono:
  "TypeExpr_eq fm (Some a) o' False \<Longrightarrow> TypeExpr_eq fm (Some a) o' True"
proof (induction a arbitrary: o')
  case (Node dn ln mn rn xn)
  show ?case
  proof (cases o')
    case None
    with Node.prems show ?thesis by simp
  next
    case (Some b)
    obtain do lo mo ro xo where b: "b = Node do lo mo ro xo" by (cases b)
    show ?thesis
    proof (cases rn)
      case None
      with Node.prems Some b show ?thesis
        by (cases ro) (auto split: if_splits)
    next
      case (Some r)
      have "TypeExpr_eq fm (Some r) ro False \<Longrightarrow> TypeExpr_eq fm (Some r) ro True"
        using Node.IH(3) [of r ro] Some by simp
      with Node.prems \<open>o' = Some b\<close> b Some show ?thesis
        by (auto split: if_splits)
    qed
  qed
qed

lemma TypeExpr_eq_erase:
  "TypeExpr_eq fm (Some a) o' True =
   TypeExpr_eq fm (Some (eraseRefinements a)) (map_option eraseRefinements o') False"
proof (induction a arbitrary: o')
  case (Node dn ln mn rn xn)
  show ?case
  proof (cases o')
    case None
    then show ?thesis by simp
  next
    case (Some b)
    obtain do lo mo ro xo where b: "b = Node do lo mo ro xo" by (cases b)
    show ?thesis
    proof (cases rn)
      case None
      with Some b show ?thesis
        by (cases ro) (auto simp: IsArrayType_def)
    next
      case (Some r)
      have "TypeExpr_eq fm (Some r) ro True =
        TypeExpr_eq fm (Some (eraseRefinements r)) (map_option eraseRefinements ro) False"
        using Node.IH(3) [of r ro] Some by simp
      with \<open>o' = Some b\<close> b Some show ?thesis
        by (cases ro) (auto simp: IsArrayType_def)
    qed
  qed
qed

lemma EqIgnoringRefinements_erase:
  "EqIgnoringRefinements fm n o' =
   TypeExpr_Eq fm (map_option eraseRefinements n) (map_option eraseRefinements o')"
proof (cases n)
  case None
  then show ?thesis
    by (cases o') (simp_all add: EqIgnoringRefinements_def TypeExpr_Eq_def)
next
  case (Some a)
  then show ?thesis
    by (simp add: EqIgnoringRefinements_def TypeExpr_Eq_def TypeExpr_eq_erase)
qed

lemma TypeExpr_Eq_imp_EqIgnoringRefinements:
  "TypeExpr_Eq fm n o' \<Longrightarrow> EqIgnoringRefinements fm n o'"
proof (cases n)
  case None
  assume "TypeExpr_Eq fm n o'"
  with None show ?thesis
    by (cases o') (simp_all add: EqIgnoringRefinements_def TypeExpr_Eq_def)
next
  case (Some a)
  assume "TypeExpr_Eq fm n o'"
  with Some show ?thesis
    by (simp add: EqIgnoringRefinements_def TypeExpr_Eq_def TypeExpr_eq_mono)
qed

lemma EqIgnoringRefinements_step:
  assumes "addr dn \<noteq> addr do"
  shows "EqIgnoringRefinements fm (Some (Node dn ln mn rn xn)) (Some (Node do lo mo ro xo)) =
    (id0 dn = id0 do \<and> id1 dn = id1 do \<and> id2 dn = id2 do \<and>
     (IsArrayType dn \<longrightarrow> Expr_Eq fm ln lo \<and> Expr_Eq fm mn mo) \<and>
     EqIgnoringRefinements fm rn ro)"
  using assms by (cases rn; cases ro) (auto simp: EqIgnoringRefinements_def)

text \<open>
  Claim C7. \<open>EqIgnoringRefinements(n, o)\<close> is \<open>TypeExpr.Eq\<close> of the two type
  expressions with the refinement bounds of every non-array level removed: on two
  distinct nodes it compares \<open>id0\<close>, \<open>id1\<close> and \<open>id2\<close>, on a level whose decorator is
  \<open>array\<close> also the operands \<open>lhs\<close> (the length) and \<open>mhs\<close>, on any other level neither
  of them, and goes on with the two \<open>rhs\<close>. \<open>TypeExpr.Eq(n, o)\<close> implies
  \<open>EqIgnoringRefinements(n, o)\<close>.
\<close>

theorem EqIgnoringRefinements_spec:
  "(\<forall>n o'. EqIgnoringRefinements fm n o' =
      TypeExpr_Eq fm (map_option eraseRefinements n) (map_option eraseRefinements o')) \<and>
   (\<forall>dn ln mn rn xn do lo mo ro xo. addr dn \<noteq> addr do \<longrightarrow>
      EqIgnoringRefinements fm (Some (Node dn ln mn rn xn)) (Some (Node do lo mo ro xo)) =
        (id0 dn = id0 do \<and> id1 dn = id1 do \<and> id2 dn = id2 do \<and>
         (IsArrayType dn \<longrightarrow> Expr_Eq fm ln lo \<and> Expr_Eq fm mn mo) \<and>
         EqIgnoringRefinements fm rn ro)) \<and>
   (\<forall>n o'. TypeExpr_Eq fm n o' \<longrightarrow> EqIgnoringRefinements fm n o')"
  using EqIgnoringRefinements_erase EqIgnoringRefinements_step
    TypeExpr_Eq_imp_EqIgnoringRefinements
  by blast

text \<open>
  The theorem at two occurrences of \<open>base.u32[0..5]\<close>, which are equal and so equal
  when the refinements are ignored; \<open>base.u32[0..5]\<close> and \<open>base.u32[0..7]\<close> are not
  equal, and equal when the refinements are ignored.
\<close>

theorem EqIgnoringRefinements_spec_witness:
  "TypeExpr_Eq 0xFF (Some u32_0_5) (Some u32_0_5_again) \<and>
   EqIgnoringRefinements 0xFF (Some u32_0_5) (Some u32_0_5_again) \<and>
   \<not> TypeExpr_Eq 0xFF (Some u32_0_5) (Some u32_0_7) \<and>
   EqIgnoringRefinements 0xFF (Some u32_0_5) (Some u32_0_7)"
proof -
  have h: "TypeExpr_Eq 0xFF (Some u32_0_5) (Some u32_0_5_again)"
    by (simp add: TypeExpr_Eq_def u32_0_5_def u32_0_5_again_def typeData_def literal_def
        exprData_def IsArrayType_def)
  with EqIgnoringRefinements_spec [of "0xFF"] have
    "EqIgnoringRefinements 0xFF (Some u32_0_5) (Some u32_0_5_again)"
    by blast
  moreover have "\<not> TypeExpr_Eq 0xFF (Some u32_0_5) (Some u32_0_7)"
    by (simp add: TypeExpr_Eq_def u32_0_5_def u32_0_7_def typeData_def literal_def
        exprData_def IsArrayType_def)
  moreover have "EqIgnoringRefinements 0xFF (Some u32_0_5) (Some u32_0_7)"
    by (simp add: EqIgnoringRefinements_def u32_0_5_def u32_0_7_def typeData_def
        literal_def exprData_def IsArrayType_def)
  ultimately show ?thesis using h by simp
qed


section \<open>Properties of package cgen\<close>

subsection \<open>Jump targets\<close>

lemma word_of_nat_small:
  "len \<le> 1000000 \<Longrightarrow> unat (word_of_nat len :: 32 word) = len"
  by (simp add: unat_of_nat)

lemma word_of_nat_million:
  "len \<le> 1000000 \<Longrightarrow> ((word_of_nat len :: 32 word) = 1000000) = (len = 1000000)"
proof
  assume le: "len \<le> 1000000" and eq: "(word_of_nat len :: 32 word) = 1000000"
  from eq have "unat (word_of_nat len :: 32 word) = unat (1000000 :: 32 word)" by simp
  with word_of_nat_small [OF le] show "len = 1000000" by simp
next
  assume "len = 1000000"
  then show "(word_of_nat len :: 32 word) = 1000000" by simp
qed

lemma jumpTarget_hit:
  "map_of (targets k) n = Some v \<Longrightarrow>
   jumpTarget k n = (v, None, k\<lparr>jumpTargets := Some (targets k)\<rparr>)"
  by (simp add: jumpTarget_def targets_def Let_def)

lemma jumpTarget_new:
  assumes "map_of (targets k) n = None" and "length (targets k) < 1000000"
  shows "jumpTarget k n =
    (word_of_nat (length (targets k)), None,
     k\<lparr>jumpTargets := Some (targets k @ [(n, word_of_nat (length (targets k)))])\<rparr>)"
proof -
  from assms(2) have "(word_of_nat (length (targets k)) :: 32 word) \<noteq> 1000000"
    using word_of_nat_million [of "length (targets k)"] by simp
  with assms(1) show ?thesis
    by (simp add: jumpTarget_def targets_def Let_def)
qed

lemma jumpTarget_full:
  assumes "map_of (targets k) n = None" and "length (targets k) = 1000000"
  shows "jumpTarget k n =
    (0, Some ErrTooManyJumpTargets, k\<lparr>jumpTargets := Some (targets k)\<rparr>)"
proof -
  from assms(2) have "(word_of_nat (length (targets k)) :: 32 word) = 1000000"
    by simp
  with assms(1) show ?thesis
    by (simp add: jumpTarget_def targets_def Let_def)
qed

lemma jumpTargetsOK_fresh: "jumpTargets k = None \<Longrightarrow> jumpTargetsOK k"
  by (simp add: jumpTargetsOK_def targets_def)

lemma jumpTargetsOK_same:
  "jumpTargetsOK k \<Longrightarrow> jumpTargetsOK (k\<lparr>jumpTargets := Some (targets k)\<rparr>)"
  by (simp add: jumpTargetsOK_def targets_def)

lemma jumpTargetsOK_snoc:
  assumes "jumpTargetsOK k" and "map_of (targets k) n = None"
    and "length (targets k) < 1000000"
  shows "jumpTargetsOK
    (k\<lparr>jumpTargets := Some (targets k @ [(n, word_of_nat (length (targets k)))])\<rparr>)"
proof -
  from assms(2) have "n \<notin> fst ` set (targets k)"
    by (simp add: map_of_eq_None_iff)
  with assms(1,3) show ?thesis
    by (simp add: jumpTargetsOK_def targets_def)
qed

lemma jumpTarget_cases:
  assumes ok: "jumpTargetsOK k"
  shows "case jumpTarget k n of (jt, err, k') \<Rightarrow>
      jumpTargetsOK k' \<and>
      (\<forall>v. map_of (targets k) n = Some v \<longrightarrow>
         jt = v \<and> err = None \<and> targets k' = targets k) \<and>
      (map_of (targets k) n = None \<and> length (targets k) < 1000000 \<longrightarrow>
         unat jt = length (targets k) \<and> err = None \<and>
         targets k' = targets k @ [(n, jt)]) \<and>
      ((err \<noteq> None) = (map_of (targets k) n = None \<and> length (targets k) = 1000000)) \<and>
      (err \<noteq> None \<longrightarrow> err = Some ErrTooManyJumpTargets \<and> targets k' = targets k) \<and>
      (err = None \<longrightarrow> jumpTarget k' n = (jt, None, k'))"
proof (cases "map_of (targets k) n")
  case (Some v)
  have again: "jumpTarget (k\<lparr>jumpTargets := Some (targets k)\<rparr>) n =
      (v, None, k\<lparr>jumpTargets := Some (targets k)\<rparr>)"
    using Some by (simp add: jumpTarget_def targets_def Let_def)
  from Some jumpTarget_hit [OF Some] jumpTargetsOK_same [OF ok] again show ?thesis
    by (simp add: targets_def)
next
  case None
  from ok have le: "length (targets k) \<le> 1000000" by (simp add: jumpTargetsOK_def)
  show ?thesis
  proof (cases "length (targets k) = 1000000")
    case True
    from None jumpTarget_full [OF None True] jumpTargetsOK_same [OF ok] True
    show ?thesis by (simp add: targets_def)
  next
    case False
    with le have lt: "length (targets k) < 1000000" by simp
    let ?jt = "word_of_nat (length (targets k)) :: 32 word"
    let ?k' = "k\<lparr>jumpTargets := Some (targets k @ [(n, ?jt)])\<rparr>"
    have t': "targets ?k' = targets k @ [(n, ?jt)]"
      by (simp add: targets_def)
    have hit: "map_of (targets ?k') n = Some ?jt"
      using None by (simp add: t' map_add_def)
    have same: "?k'\<lparr>jumpTargets := Some (targets ?k')\<rparr> = ?k'"
      by (simp add: targets_def)
    from jumpTarget_hit [OF hit] same have again: "jumpTarget ?k' n = (?jt, None, ?k')"
      by simp
    from None lt jumpTarget_new [OF None lt] jumpTargetsOK_snoc [OF ok None lt]
      word_of_nat_small [OF le] again
    show ?thesis by (simp add: targets_def)
  qed
qed


lemma jumpTargetAll_new:
  assumes "jumpTargetsOK k" and "distinct ns" and "set ns \<inter> fst ` set (targets k) = {}"
    and "length (targets k) + length ns \<le> 1000000"
  shows "fst (jumpTargetAll k ns) =
      map (\<lambda>i. (word_of_nat i, None)) [length (targets k) ..< length (targets k) + length ns] \<and>
    jumpTargetsOK (snd (jumpTargetAll k ns)) \<and>
    map fst (targets (snd (jumpTargetAll k ns))) = map fst (targets k) @ ns"
  using assms
proof (induction ns arbitrary: k)
  case Nil
  then show ?case by simp
next
  case (Cons n ns)
  let ?len = "length (targets k)"
  let ?k' = "k\<lparr>jumpTargets := Some (targets k @ [(n, word_of_nat ?len)])\<rparr>"
  from Cons.prems(3) have none: "map_of (targets k) n = None"
    by (auto simp: map_of_eq_None_iff)
  from Cons.prems(4) have lt: "?len < 1000000" by simp
  have step: "jumpTarget k n = (word_of_nat ?len, None, ?k')"
    by (rule jumpTarget_new [OF none lt])
  have t': "targets ?k' = targets k @ [(n, word_of_nat ?len)]"
    by (simp add: targets_def)
  have ok': "jumpTargetsOK ?k'"
    by (rule jumpTargetsOK_snoc [OF Cons.prems(1) none lt])
  have d': "distinct ns" using Cons.prems(2) by simp
  have i': "set ns \<inter> fst ` set (targets ?k') = {}"
    using Cons.prems(2,3) by (auto simp: t')
  have l': "length (targets ?k') + length ns \<le> 1000000"
    using Cons.prems(4) by (simp add: t')
  have len': "length (targets ?k') = Suc ?len" by (simp add: t')
  note IH = Cons.IH [OF ok' d' i' l', unfolded len']
  have upt: "[?len ..< ?len + length (n # ns)] = ?len # [Suc ?len ..< Suc ?len + length ns]"
    by (subst upt_rec) simp
  have res: "jumpTargetAll k (n # ns) =
      ((word_of_nat ?len, None) # fst (jumpTargetAll ?k' ns), snd (jumpTargetAll ?k' ns))"
    by (simp add: step split: prod.splits)
  have "fst (jumpTargetAll k (n # ns)) =
      map (\<lambda>i. (word_of_nat i, None)) [?len ..< ?len + length (n # ns)]"
    unfolding res upt using IH by simp
  moreover have "jumpTargetsOK (snd (jumpTargetAll k (n # ns)))"
    unfolding res using IH by simp
  moreover have "map fst (targets (snd (jumpTargetAll k (n # ns)))) =
      map fst (targets k) @ n # ns"
    unfolding res using IH by (simp add: t')
  ultimately show ?case by blast
qed

text \<open>
  Claim C9. The map of a fresh \<open>funk\<close> is \<open>nil\<close>, and the entries of a map that only
  \<open>jumpTarget\<close> has written are well formed (\<open>jumpTargetsOK\<close>), before and after every
  call. On such a map, \<open>jumpTarget(n)\<close>
  \<^item> for a loop \<open>n\<close> in the map returns the number stored for it, with no error, and
    leaves the entries as they are;
  \<^item> for a new loop, with fewer than 1000000 entries, returns the number of entries,
    with no error, and stores it for \<open>n\<close>;
  \<^item> fails exactly when \<open>n\<close> is new and the map has 1000000 entries, with the error
    "too many jump targets" and the entries unchanged;
  \<^item> when it did not fail, returns the same number for \<open>n\<close> when asked again.
  So the calls for distinct loops \<open>ns\<close>, at most 1000000 of them, from a fresh \<open>funk\<close>
  return \<open>0, 1, 2, ...\<close> without error, and after 1000000 distinct loops the call for
  one more loop fails.
\<close>

theorem jumpTarget_lazy_stable:
  "(jumpTargets k = None \<longrightarrow> jumpTargetsOK k) \<and>
   (jumpTargetsOK k \<longrightarrow>
      (case jumpTarget k n of (jt, err, k') \<Rightarrow>
         jumpTargetsOK k' \<and>
         (\<forall>v. map_of (targets k) n = Some v \<longrightarrow>
            jt = v \<and> err = None \<and> targets k' = targets k) \<and>
         (map_of (targets k) n = None \<and> length (targets k) < 1000000 \<longrightarrow>
            unat jt = length (targets k) \<and> err = None \<and>
            targets k' = targets k @ [(n, jt)]) \<and>
         ((err \<noteq> None) = (map_of (targets k) n = None \<and> length (targets k) = 1000000)) \<and>
         (err \<noteq> None \<longrightarrow> err = Some ErrTooManyJumpTargets \<and> targets k' = targets k) \<and>
         (err = None \<longrightarrow> jumpTarget k' n = (jt, None, k')))) \<and>
   (jumpTargets k = None \<and> distinct ns \<and> length ns \<le> 1000000 \<longrightarrow>
      fst (jumpTargetAll k ns) = map (\<lambda>i. (word_of_nat i, None)) [0 ..< length ns]) \<and>
   (jumpTargets k = None \<and> distinct (ns @ [n]) \<and> length ns = 1000000 \<longrightarrow>
      fst (snd (jumpTarget (snd (jumpTargetAll k ns)) n)) = Some ErrTooManyJumpTargets)"
proof -
  have trace: "fst (jumpTargetAll k ns) = map (\<lambda>i. (word_of_nat i, None)) [0 ..< length ns] \<and>
      jumpTargetsOK (snd (jumpTargetAll k ns)) \<and>
      map fst (targets (snd (jumpTargetAll k ns))) = ns"
    if fresh: "jumpTargets k = None" and d: "distinct ns" and l: "length ns \<le> 1000000"
    for ns
  proof -
    from fresh have e: "targets k = []" by (simp add: targets_def)
    from jumpTargetAll_new [of k ns] jumpTargetsOK_fresh [OF fresh] d l e
    show ?thesis by simp
  qed
  have full: "fst (snd (jumpTarget (snd (jumpTargetAll k ns)) n)) = Some ErrTooManyJumpTargets"
    if fresh: "jumpTargets k = None" and d: "distinct (ns @ [n])"
      and l: "length ns = 1000000"
  proof -
    let ?k = "snd (jumpTargetAll k ns)"
    from d have d': "distinct ns" and new: "n \<notin> set ns" by auto
    from trace [OF fresh d'] l have keys: "map fst (targets ?k) = ns" by simp
    from keys new have none: "map_of (targets ?k) n = None"
      by (metis map_of_eq_None_iff set_map)
    from keys l have len: "length (targets ?k) = 1000000"
      by (metis length_map)
    from jumpTarget_full [OF none len] show ?thesis by simp
  qed
  show ?thesis
  proof (intro conjI impI)
    assume "jumpTargets k = None"
    then show "jumpTargetsOK k" by (rule jumpTargetsOK_fresh)
  next
    assume "jumpTargetsOK k"
    then show "case jumpTarget k n of (jt, err, k') \<Rightarrow>
         jumpTargetsOK k' \<and>
         (\<forall>v. map_of (targets k) n = Some v \<longrightarrow>
            jt = v \<and> err = None \<and> targets k' = targets k) \<and>
         (map_of (targets k) n = None \<and> length (targets k) < 1000000 \<longrightarrow>
            unat jt = length (targets k) \<and> err = None \<and>
            targets k' = targets k @ [(n, jt)]) \<and>
         ((err \<noteq> None) = (map_of (targets k) n = None \<and> length (targets k) = 1000000)) \<and>
         (err \<noteq> None \<longrightarrow> err = Some ErrTooManyJumpTargets \<and> targets k' = targets k) \<and>
         (err = None \<longrightarrow> jumpTarget k' n = (jt, None, k'))"
      by (rule jumpTarget_cases)
  next
    assume "jumpTargets k = None \<and> distinct ns \<and> length ns \<le> 1000000"
    with trace show
      "fst (jumpTargetAll k ns) = map (\<lambda>i. (word_of_nat i, None)) [0 ..< length ns]"
      by simp
  next
    assume "jumpTargets k = None \<and> distinct (ns @ [n]) \<and> length ns = 1000000"
    with full show
      "fst (snd (jumpTarget (snd (jumpTargetAll k ns)) n)) = Some ErrTooManyJumpTargets"
      by simp
  qed
qed

text \<open>
  The theorem at a fresh \<open>funk\<close> and the loops 7 and 9: the first call for 7 returns 0
  and the next call for 7 returns 0 again; the calls for 7 and then 9 return 0 and 1.
\<close>

theorem jumpTarget_lazy_stable_witness:
  "jumpTargets freshFunk = None \<and> jumpTargetsOK freshFunk \<and>
   distinct [7 :: Loop, 9] \<and>
   fst (jumpTarget freshFunk 7) = 0 \<and>
   fst (snd (jumpTarget freshFunk 7)) = None \<and>
   fst (jumpTarget (snd (snd (jumpTarget freshFunk 7))) 7) = 0 \<and>
   fst (jumpTargetAll freshFunk [7, 9]) = [(0, None), (1, None)]"
proof -
  note inst = jumpTarget_lazy_stable [of freshFunk 7 "[7, 9]"]
  have fresh: "jumpTargets freshFunk = None" by (simp add: freshFunk_def)
  with inst have ok: "jumpTargetsOK freshFunk" by blast
  have new: "map_of (targets freshFunk) 7 = None \<and> length (targets freshFunk) < 1000000"
    by (simp add: targets_def freshFunk_def)
  obtain jt err k' where r: "jumpTarget freshFunk 7 = (jt, err, k')"
    by (cases "jumpTarget freshFunk 7")
  from inst ok new r have "unat jt = length (targets freshFunk)" and e: "err = None"
    by auto
  then have jt: "jt = 0" by (simp add: targets_def freshFunk_def unat_eq_0)
  from inst ok e r have again: "jumpTarget k' 7 = (jt, None, k')" by auto
  have d: "distinct [7 :: Loop, 9] \<and> length [7 :: Loop, 9] \<le> 1000000" by simp
  with inst fresh have
    "fst (jumpTargetAll freshFunk [7, 9]) =
       map (\<lambda>i. (word_of_nat i, None)) [0 ..< length [7 :: Loop, 9]]"
    by blast
  then have "fst (jumpTargetAll freshFunk [7, 9]) = [(0, None), (1, None)]"
    by (simp add: upt_rec)
  with fresh ok r jt e again show ?thesis by simp
qed

text \<open>\<open>writeStatementJump\<close> returns the error of \<open>jumpTarget\<close> or writes the \<open>goto\<close>.\<close>

lemma writeStatementJump_cases:
  "writeStatementJump g b n depth =
     (case jumpTarget (currFunk g) (Jump_JumpTarget n) of
        (jt, err, k) \<Rightarrow>
          (err, g\<lparr>currFunk := k\<rparr>,
           if err = None
           then b @ ''goto label_'' @ showNat (unat jt) @ ''_'' @
             (if Jump_Keyword n = IDBreak then ''break'' else ''continue'') @ '';'' @ NL
           else b))"
  by (auto simp: writeStatementJump_def Let_def split: prod.splits option.splits)


subsection \<open>Evaluating the examples\<close>

lemma showNat_digit: "n < 10 \<Longrightarrow> showNat n = [digitChar n]"
  by (simp add: showNat.simps)

lemmas demo_defs = demoEnv_def demoWriteExpr_def demoNoDerivedVars_def demoNoBuiltin_def
  demoUserDefinedCall_def suspendibleGen_def suspendibleFunk_def freshGen_def freshFunk_def
  plainCall_def tryCall_def callData_def

subsection \<open>Return statements\<close>

lemma writeStatementRet_cases:
  assumes ns: "\<not> suspendible (currFunk g)"
  shows "writeStatementRet env g b n depth =
    (if OutFields (astFunc (currFunk g)) = [] then
       (case Ret_Value n of
          Some e \<Rightarrow> (Some (ErrRetExprEmptyType e), g, b @ ''return '')
        | None \<Rightarrow> (None, g, b @ ''return ;''))
     else
       (case Ret_Value n of
          None \<Rightarrow> (Some ErrEmptyRetNonEmptyType, g, b @ ''return '')
        | Some e \<Rightarrow>
            (case writeExpr env g (b @ ''return '') e replaceCallSuspendibles depth of
               (Some err, g', b') \<Rightarrow> (Some err, g', b')
             | (None, g', b') \<Rightarrow> (None, g', b' @ '';''))))"
  using ns by (simp add: writeStatementRet_def Let_def split: option.splits)

text \<open>
  Claim C8, as stated, fails: in a function that returns a value, \<open>return x\<close> has a
  return expression and a non-empty out-field list, yet \<open>writeStatementRet\<close> returns
  an error when \<open>writeExpr\<close> does (here at the depth 256, one more than
  \<open>MaxExprDepth\<close>): the error of \<open>writeExpr\<close> is returned as it is.
\<close>

theorem writeStatementRet_counterexample:
  "\<not> suspendible (currFunk valueGen) \<and>
   OutFields (astFunc (currFunk valueGen)) \<noteq> [] \<and>
   Ret_Value \<lparr>Ret_Keyword = IDReturn, Ret_Value = Some variableX\<rparr> \<noteq> None \<and>
   fst (writeStatementRet demoEnv valueGen [] \<lparr>Ret_Keyword = IDReturn, Ret_Value = Some variableX\<rparr> 256)
     = Some ErrExprDepth"
  by (simp add: writeStatementRet_def valueGen_def freshGen_def freshFunk_def twoFuncOut_def
      demoEnv_def demoWriteExpr_def Let_def)

text \<open>
  Claim C8, amended. In a function that is not suspendible, \<open>writeStatementRet\<close>
  writes \<open>return\<close> and then
  \<^item> fails ("return expression incompatible with empty return type") when there is a
    return expression and the out-field list is empty;
  \<^item> fails ("empty return expression incompatible with non-empty return type") when
    there is no return expression and the out-field list is not empty;
  \<^item> writes \<open>;\<close> and succeeds when there is neither (a bare \<open>return ;\<close>);
  \<^item> otherwise lowers the expression with \<open>writeExpr\<close> and returns its error, or on
    its success writes \<open>;\<close> after the expression's code.
  So it returns an error exactly in the two cases of a mismatch and when lowering the
  return expression fails.
\<close>

theorem writeStatementRet_nonsuspendible:
  "\<not> suspendible (currFunk g) \<longrightarrow>
   (case writeStatementRet env g b n depth of (err, g', b') \<Rightarrow>
      (\<forall>e. Ret_Value n = Some e \<and> OutFields (astFunc (currFunk g)) = [] \<longrightarrow>
         err = Some (ErrRetExprEmptyType e) \<and> g' = g \<and> b' = b @ ''return '') \<and>
      (Ret_Value n = None \<and> OutFields (astFunc (currFunk g)) \<noteq> [] \<longrightarrow>
         err = Some ErrEmptyRetNonEmptyType \<and> g' = g \<and> b' = b @ ''return '') \<and>
      (Ret_Value n = None \<and> OutFields (astFunc (currFunk g)) = [] \<longrightarrow>
         err = None \<and> g' = g \<and> b' = b @ ''return ;'') \<and>
      (\<forall>e. Ret_Value n = Some e \<and> OutFields (astFunc (currFunk g)) \<noteq> [] \<longrightarrow>
         (case writeExpr env g (b @ ''return '') e replaceCallSuspendibles depth of
            (werr, wg, wb) \<Rightarrow>
              err = werr \<and> g' = wg \<and> b' = (if werr = None then wb @ '';'' else wb))) \<and>
      ((err \<noteq> None) =
         ((Ret_Value n \<noteq> None \<and> OutFields (astFunc (currFunk g)) = []) \<or>
          (Ret_Value n = None \<and> OutFields (astFunc (currFunk g)) \<noteq> []) \<or>
          (\<exists>e. Ret_Value n = Some e \<and> OutFields (astFunc (currFunk g)) \<noteq> [] \<and>
             fst (writeExpr env g (b @ ''return '') e replaceCallSuspendibles depth) \<noteq> None))))"
proof
  assume ns: "\<not> suspendible (currFunk g)"
  show "case writeStatementRet env g b n depth of (err, g', b') \<Rightarrow>
      (\<forall>e. Ret_Value n = Some e \<and> OutFields (astFunc (currFunk g)) = [] \<longrightarrow>
         err = Some (ErrRetExprEmptyType e) \<and> g' = g \<and> b' = b @ ''return '') \<and>
      (Ret_Value n = None \<and> OutFields (astFunc (currFunk g)) \<noteq> [] \<longrightarrow>
         err = Some ErrEmptyRetNonEmptyType \<and> g' = g \<and> b' = b @ ''return '') \<and>
      (Ret_Value n = None \<and> OutFields (astFunc (currFunk g)) = [] \<longrightarrow>
         err = None \<and> g' = g \<and> b' = b @ ''return ;'') \<and>
      (\<forall>e. Ret_Value n = Some e \<and> OutFields (astFunc (currFunk g)) \<noteq> [] \<longrightarrow>
         (case writeExpr env g (b @ ''return '') e replaceCallSuspendibles depth of
            (werr, wg, wb) \<Rightarrow>
              err = werr \<and> g' = wg \<and> b' = (if werr = None then wb @ '';'' else wb))) \<and>
      ((err \<noteq> None) =
         ((Ret_Value n \<noteq> None \<and> OutFields (astFunc (currFunk g)) = []) \<or>
          (Ret_Value n = None \<and> OutFields (astFunc (currFunk g)) \<noteq> []) \<or>
          (\<exists>e. Ret_Value n = Some e \<and> OutFields (astFunc (currFunk g)) \<noteq> [] \<and>
             fst (writeExpr env g (b @ ''return '') e replaceCallSuspendibles depth) \<noteq> None)))"
  proof (cases "Ret_Value n")
    case None
    then show ?thesis
      by (simp add: writeStatementRet_cases [OF ns])
  next
    case (Some e)
    show ?thesis
    proof (cases "OutFields (astFunc (currFunk g)) = []")
      case True
      with Some show ?thesis
        by (simp add: writeStatementRet_cases [OF ns])
    next
      case False
      obtain werr wg wb where
        w: "writeExpr env g (b @ ''return '') e replaceCallSuspendibles depth = (werr, wg, wb)"
        by (cases "writeExpr env g (b @ ''return '') e replaceCallSuspendibles depth")
      with Some False show ?thesis
        by (cases werr) (simp_all add: writeStatementRet_cases [OF ns])
    qed
  qed
qed


text \<open>
  The theorem at \<open>return x\<close> and at a bare \<open>return\<close>, each in the function with one
  result and in the function with none.
\<close>

theorem writeStatementRet_nonsuspendible_witness:
  "\<not> suspendible (currFunk valueGen) \<and> \<not> suspendible (currFunk freshGen) \<and>
   OutFields (astFunc (currFunk valueGen)) \<noteq> [] \<and>
   OutFields (astFunc (currFunk freshGen)) = [] \<and>
   writeStatementRet demoEnv valueGen [] \<lparr>Ret_Keyword = IDReturn, Ret_Value = Some variableX\<rparr> 1 =
     (None, valueGen, ''return v_x;'') \<and>
   fst (writeStatementRet demoEnv freshGen [] \<lparr>Ret_Keyword = IDReturn, Ret_Value = Some variableX\<rparr> 1) =
     Some (ErrRetExprEmptyType variableX) \<and>
   writeStatementRet demoEnv freshGen [] \<lparr>Ret_Keyword = IDReturn, Ret_Value = None\<rparr> 1 =
     (None, freshGen, ''return ;'') \<and>
   fst (writeStatementRet demoEnv valueGen [] \<lparr>Ret_Keyword = IDReturn, Ret_Value = None\<rparr> 1) =
     Some ErrEmptyRetNonEmptyType"
proof -
  let ?rx = "\<lparr>Ret_Keyword = IDReturn, Ret_Value = Some variableX\<rparr>"
  let ?r0 = "\<lparr>Ret_Keyword = IDReturn, Ret_Value = None\<rparr>"
  have ns: "\<not> suspendible (currFunk valueGen)" "\<not> suspendible (currFunk freshGen)"
    by (simp_all add: valueGen_def freshGen_def freshFunk_def)
  have out: "OutFields (astFunc (currFunk valueGen)) \<noteq> []"
    "OutFields (astFunc (currFunk freshGen)) = []"
    by (simp_all add: valueGen_def freshGen_def freshFunk_def twoFuncOut_def emptyFunc_def)
  have w: "writeExpr demoEnv valueGen ([] @ ''return '') variableX replaceCallSuspendibles 1 =
      (None, valueGen, ''return v_x'')"
    by (simp add: demoEnv_def demoWriteExpr_def)
  have a: "writeStatementRet demoEnv valueGen [] ?rx 1 = (None, valueGen, ''return v_x;'')"
    using writeStatementRet_nonsuspendible [where g = valueGen and env = demoEnv and b = "[]" and n = "?rx" and depth = 1] ns(1) out(1) w
    by (cases "writeStatementRet demoEnv valueGen [] ?rx 1") simp
  have b: "fst (writeStatementRet demoEnv freshGen [] ?rx 1) =
      Some (ErrRetExprEmptyType variableX)"
    using writeStatementRet_nonsuspendible [where g = freshGen and env = demoEnv and b = "[]" and n = "?rx" and depth = 1] ns(2) out(2)
    by (cases "writeStatementRet demoEnv freshGen [] ?rx 1") simp
  have c: "writeStatementRet demoEnv freshGen [] ?r0 1 = (None, freshGen, ''return ;'')"
    using writeStatementRet_nonsuspendible [where g = freshGen and env = demoEnv and b = "[]" and n = "?r0" and depth = 1] ns(2) out(2)
    by (cases "writeStatementRet demoEnv freshGen [] ?r0 1") simp
  have d: "fst (writeStatementRet demoEnv valueGen [] ?r0 1) = Some ErrEmptyRetNonEmptyType"
    using writeStatementRet_nonsuspendible [where g = valueGen and env = demoEnv and b = "[]" and n = "?r0" and depth = 1] ns(1) out(1)
    by (cases "writeStatementRet demoEnv valueGen [] ?r0 1") simp
  from ns out a b c d show ?thesis by simp
qed

subsection \<open>Suspendible calls\<close>

text \<open>
  The two functions in the shape of the source: a loop over \<open>SubNodes()\<close>, then a
  loop over \<open>Args()\<close>.
\<close>

lemma mightActuallySuspend_loops:
  "mightActuallySuspend env n depth =
     (if depth > MaxExprDepth env then Some ErrExprDepth
      else if \<not> CallSuspendible (dat n) then
        (case mightActuallySuspend_nodes env (SubNodes n) (depth + 1) of
           Some err \<Rightarrow> Some err
         | None \<Rightarrow> mightActuallySuspend_nodes env (Args n) (depth + 1))
      else if ProvenNotToSuspend (dat n) then None
      else Some ErrMightActuallySuspend)"
  by (cases n) (simp add: SubNodes_def Args_def split: option.splits)

lemma writeCallSuspendibles_loops:
  "writeCallSuspendibles env g b n depth =
     (if depth > MaxExprDepth env then (Some ErrExprDepth, g, b)
      else if \<not> CallSuspendible (dat n) then
        (case writeCallSuspendibles_nodes env g b (SubNodes n) (depth + 1) of
           (Some err, g, b) \<Rightarrow> (Some err, g, b)
         | (None, g, b) \<Rightarrow> writeCallSuspendibles_nodes env g b (Args n) (depth + 1))
      else writeCallSite env g b n (depth + 1))"
  by (cases n) (simp add: SubNodes_def Args_def split: option.splits prod.splits)


lemma writeCallSuspendibles_call:
  "CallSuspendible (dat n) \<Longrightarrow> \<not> depth > MaxExprDepth env \<Longrightarrow>
   writeCallSuspendibles env g b n depth = writeCallSite env g b n (depth + 1)"
  by (cases n) simp

text \<open>
  Claim C2. At a suspendible call \<open>n\<close> within the depth limit that is no built-in
  (\<open>writeBuiltinCallSuspendibles\<close> answers \<open>errNoSuchBuiltin\<close>), after the derived
  variables are saved, \<open>writeCallSuspendibles\<close>
  \<^item> when the operator of \<open>n\<close> is not \<open>try\<close>: writes \<open>status = \<close>, the call, \<open>;\<close> and a
    line feed, reloads the derived variables and then writes
    \<open>if (status) { goto suspend; }\<close>;
  \<^item> when the operator is \<open>try\<close> and \<open>tempW\<close> is at most \<open>maxTemp\<close>: increments \<open>tempW\<close>,
    writes \<open><pkgPrefix>status <tPrefix><k> = \<close> for the old value \<open>k\<close> of \<open>tempW\<close>, the
    call, \<open>;\<close> and a line feed, reloads the derived variables and writes nothing more;
  \<^item> when the operator is \<open>try\<close> and \<open>tempW\<close> is beyond \<open>maxTemp\<close>: fails ("too many
    temporary variables required").
\<close>

theorem writeCallSuspendibles_user_call:
  "CallSuspendible (dat n) \<and> depth \<le> MaxExprDepth env \<and>
   writeSaveExprDerivedVars env g b n = (None, g1, b1) \<and>
   writeBuiltinCallSuspendibles env g1 b1 n (depth + 1) = (Some ErrNoSuchBuiltin, g2, b2) \<longrightarrow>
   (Operator n \<noteq> IDTry \<and>
    writeExprUserDefinedCall env g2 (b2 @ ''status = '') n replaceNothing (depth + 1) =
      (None, g3, b3) \<and>
    writeLoadExprDerivedVars env g3 (b3 @ '';'' @ NL) n = (None, g4, b4) \<longrightarrow>
      writeCallSuspendibles env g b n depth =
        (None, g4, b4 @ ''if (status) { goto suspend; }'' @ NL)) \<and>
   (Operator n = IDTry \<and> tempW (currFunk g2) \<le> maxTemp env \<and>
    writeExprUserDefinedCall env
      (g2\<lparr>currFunk := (currFunk g2)\<lparr>tempW := tempW (currFunk g2) + 1\<rparr>\<rparr>)
      (b2 @ pkgPrefix g2 @ ''status '' @ tPrefix env @ showNat (unat (tempW (currFunk g2))) @
         '' = '')
      n replaceNothing (depth + 1) = (None, g3, b3) \<and>
    writeLoadExprDerivedVars env g3 (b3 @ '';'' @ NL) n = (None, g4, b4) \<longrightarrow>
      writeCallSuspendibles env g b n depth = (None, g4, b4)) \<and>
   (Operator n = IDTry \<and> tempW (currFunk g2) > maxTemp env \<longrightarrow>
      writeCallSuspendibles env g b n depth = (Some ErrTooManyTemps, g2, b2))"
proof (intro impI, elim conjE)
  assume call: "CallSuspendible (dat n)" and d: "depth \<le> MaxExprDepth env"
    and save: "writeSaveExprDerivedVars env g b n = (None, g1, b1)"
    and builtin:
      "writeBuiltinCallSuspendibles env g1 b1 n (depth + 1) = (Some ErrNoSuchBuiltin, g2, b2)"
  from d have nd: "\<not> depth > MaxExprDepth env" by simp
  note site = writeCallSuspendibles_call [OF call nd]
  show "(Operator n \<noteq> IDTry \<and>
    writeExprUserDefinedCall env g2 (b2 @ ''status = '') n replaceNothing (depth + 1) =
      (None, g3, b3) \<and>
    writeLoadExprDerivedVars env g3 (b3 @ '';'' @ NL) n = (None, g4, b4) \<longrightarrow>
      writeCallSuspendibles env g b n depth =
        (None, g4, b4 @ ''if (status) { goto suspend; }'' @ NL)) \<and>
   (Operator n = IDTry \<and> tempW (currFunk g2) \<le> maxTemp env \<and>
    writeExprUserDefinedCall env
      (g2\<lparr>currFunk := (currFunk g2)\<lparr>tempW := tempW (currFunk g2) + 1\<rparr>\<rparr>)
      (b2 @ pkgPrefix g2 @ ''status '' @ tPrefix env @ showNat (unat (tempW (currFunk g2))) @
         '' = '')
      n replaceNothing (depth + 1) = (None, g3, b3) \<and>
    writeLoadExprDerivedVars env g3 (b3 @ '';'' @ NL) n = (None, g4, b4) \<longrightarrow>
      writeCallSuspendibles env g b n depth = (None, g4, b4)) \<and>
   (Operator n = IDTry \<and> tempW (currFunk g2) > maxTemp env \<longrightarrow>
      writeCallSuspendibles env g b n depth = (Some ErrTooManyTemps, g2, b2))"
    by (auto simp: site writeCallSite_def save builtin Let_def)
qed

text \<open>
  The theorem at the call \<open>this.decode?()\<close> and at \<open>try this.decode?()\<close>, in a
  function without derived variables whose \<open>tempW\<close> is 0.
\<close>

theorem writeCallSuspendibles_user_call_witness:
  "writeCallSuspendibles demoEnv suspendibleGen [] plainCall 0 =
     (None, suspendibleGen,
      ''status = wuffs_demo__decode(self);'' @ NL @ ''if (status) { goto suspend; }'' @ NL) \<and>
   writeCallSuspendibles demoEnv suspendibleGen [] tryCall 0 =
     (None, suspendibleGen\<lparr>currFunk := suspendibleFunk\<lparr>tempW := 1\<rparr>\<rparr>,
      ''wuffs_demo__status t_0 = wuffs_demo__decode(self);'' @ NL)"
proof -
  let ?g = suspendibleGen
  let ?g' = "suspendibleGen\<lparr>currFunk := suspendibleFunk\<lparr>tempW := 1\<rparr>\<rparr>"
  have plain: "CallSuspendible (dat plainCall) \<and> 0 \<le> MaxExprDepth demoEnv \<and>
      writeSaveExprDerivedVars demoEnv ?g [] plainCall = (None, ?g, []) \<and>
      writeBuiltinCallSuspendibles demoEnv ?g [] plainCall (0 + 1) =
        (Some ErrNoSuchBuiltin, ?g, [])"
    by (simp add: demo_defs)
  have plain': "Operator plainCall \<noteq> IDTry \<and>
      writeExprUserDefinedCall demoEnv ?g ([] @ ''status = '') plainCall replaceNothing (0 + 1) =
        (None, ?g, ''status = wuffs_demo__decode(self)'') \<and>
      writeLoadExprDerivedVars demoEnv ?g (''status = wuffs_demo__decode(self)'' @ '';'' @ NL)
        plainCall = (None, ?g, ''status = wuffs_demo__decode(self);'' @ NL)"
    by (simp add: demo_defs Operator_def)
  have tc: "CallSuspendible (dat tryCall) \<and> 0 \<le> MaxExprDepth demoEnv \<and>
      writeSaveExprDerivedVars demoEnv ?g [] tryCall = (None, ?g, []) \<and>
      writeBuiltinCallSuspendibles demoEnv ?g [] tryCall (0 + 1) =
        (Some ErrNoSuchBuiltin, ?g, [])"
    by (simp add: demo_defs)
  have tc': "Operator tryCall = IDTry \<and> tempW (currFunk ?g) \<le> maxTemp demoEnv \<and>
      writeExprUserDefinedCall demoEnv
        (?g\<lparr>currFunk := (currFunk ?g)\<lparr>tempW := tempW (currFunk ?g) + 1\<rparr>\<rparr>)
        ([] @ pkgPrefix ?g @ ''status '' @ tPrefix demoEnv @
           showNat (unat (tempW (currFunk ?g))) @ '' = '')
        tryCall replaceNothing (0 + 1) =
        (None, ?g', ''wuffs_demo__status t_0 = wuffs_demo__decode(self)'') \<and>
      writeLoadExprDerivedVars demoEnv ?g'
        (''wuffs_demo__status t_0 = wuffs_demo__decode(self)'' @ '';'' @ NL) tryCall =
        (None, ?g', ''wuffs_demo__status t_0 = wuffs_demo__decode(self);'' @ NL)"
    by (simp add: demo_defs Operator_def showNat_digit digitChar_def)
  from writeCallSuspendibles_user_call
    [where env = demoEnv and g = ?g and b = "[]" and n = plainCall and depth = 0
      and ?g1.0 = ?g and ?b1.0 = "[]" and ?g2.0 = ?g and ?b2.0 = "[]"
      and ?g3.0 = ?g and ?b3.0 = "''status = wuffs_demo__decode(self)''"
      and ?g4.0 = ?g and ?b4.0 = "''status = wuffs_demo__decode(self);'' @ NL"]
    plain plain'
  have a: "writeCallSuspendibles demoEnv ?g [] plainCall 0 =
      (None, ?g, (''status = wuffs_demo__decode(self);'' @ NL) @
         ''if (status) { goto suspend; }'' @ NL)"
    by blast
  from writeCallSuspendibles_user_call
    [where env = demoEnv and g = ?g and b = "[]" and n = tryCall and depth = 0
      and ?g1.0 = ?g and ?b1.0 = "[]" and ?g2.0 = ?g and ?b2.0 = "[]"
      and ?g3.0 = ?g' and ?b3.0 = "''wuffs_demo__status t_0 = wuffs_demo__decode(self)''"
      and ?g4.0 = ?g' and ?b4.0 = "''wuffs_demo__status t_0 = wuffs_demo__decode(self);'' @ NL"]
    tc tc'
  have b: "writeCallSuspendibles demoEnv ?g [] tryCall 0 =
      (None, ?g', ''wuffs_demo__status t_0 = wuffs_demo__decode(self);'' @ NL)"
    by blast
  from a b show ?thesis by simp
qed


subsection \<open>Suspension points before suspendible calls\<close>
















subsection \<open>Argument checks of public functions\<close>

lemma numTypeBounds_length: "length numTypeBounds = 0x128"
  by (simp add: numTypeBounds_def)

lemma numTypeBounds_nth:
  "key < 0x128 \<Longrightarrow>
   numTypeBounds ! key =
     (map_option fst (naturalBounds key), map_option snd (naturalBounds key))"
  by (simp add: numTypeBounds_def naturalBounds_def nth_list_update)

lemma naturalBounds_outside: "\<not> key < 0x128 \<Longrightarrow> naturalBounds key = None"
  by (auto simp: naturalBounds_def)

lemma argBounds_natural:
  "argBounds oTyp =
     (elideBound (boundConst (fst (Bounds oTyp))) (map_option fst (naturalBoundsOf (QID oTyp))),
      elideBound (boundConst (snd (Bounds oTyp))) (map_option snd (naturalBoundsOf (QID oTyp))))"
proof (cases "fst (QID oTyp) = IDBase")
  case False
  then show ?thesis
    by (simp add: argBounds_def naturalBoundsOf_def elideBound_def Let_def)
next
  case True
  show ?thesis
  proof (cases "snd (QID oTyp) < 0x128")
    case True
    with \<open>fst (QID oTyp) = IDBase\<close> show ?thesis
      by (simp add: argBounds_def naturalBoundsOf_def Let_def numTypeBounds_length
          numTypeBounds_nth)
  next
    case False
    with \<open>fst (QID oTyp) = IDBase\<close> show ?thesis
      by (simp add: argBounds_def naturalBoundsOf_def Let_def numTypeBounds_length
          naturalBounds_outside elideBound_def)
  qed
qed

lemma boundCheck_rangeCheck:
  "boundCheck env o' 0 (elideBound bound natural) = rangeCheck env o' ''<'' bound natural"
  "i \<noteq> 0 \<Longrightarrow>
   boundCheck env o' i (elideBound bound natural) = rangeCheck env o' ''>'' bound natural"
  by (auto simp: boundCheck_def elideBound_def rangeCheck_def split: option.splits)

lemma argChecks_refined:
  assumes "Decorator (XType o') \<noteq> IDPtr" and "IsRefined (XType o')"
  shows "argChecks env o' =
      rangeCheck env o' ''<'' (boundConst (fst (Bounds (XType o'))))
        (map_option fst (naturalBoundsOf (QID (XType o')))) @
      rangeCheck env o' ''>'' (boundConst (snd (Bounds (XType o'))))
        (map_option snd (naturalBoundsOf (QID (XType o'))))"
  using assms by (simp add: argChecks_def Let_def argBounds_natural boundCheck_rangeCheck)

lemma writeChecks_join_aux:
  "writeChecks b (Suc i) cs = b @ concat (map (\<lambda>c. '' || '' @ c) cs)"
  by (induction cs arbitrary: b i) simp_all

lemma joinWith_Cons: "joinWith sep (c # cs) = c @ concat (map (\<lambda>d. sep @ d) cs)"
  by (induction cs arbitrary: c) simp_all

lemma writeChecks_join: "writeChecks b 0 cs = b @ joinWith '' || '' cs"
proof (cases cs)
  case Nil
  then show ?thesis by simp
next
  case (Cons c cs')
  then show ?thesis
    by (simp add: writeChecks_join_aux joinWith_Cons)
qed


lemma writeFuncImplArgChecks_cases:
  "writeFuncImplArgChecks env g b n =
     (if concat (map (argChecks env) (InFields n)) = [] then (None, g, b)
      else (None, g,
            b @ ''if ('' @ joinWith '' || '' (concat (map (argChecks env) (InFields n))) @
              '') {'' @ badArgument g n @ ''}'' @ NL))"
  by (simp add: writeFuncImplArgChecks_def Let_def writeChecks_join badArgument_def)

text \<open>
  Claim C6. For the arguments of a function, \<open>writeFuncImplArgChecks\<close> (which
  \<open>writeFuncImplHeader\<close> runs for every public function) collects
  \<^item> for an argument whose type has the decorator \<open>ptr\<close>, the non-null check
    \<open>!<aPrefix><name>\<close>;
  \<^item> for any other argument whose type is refined, the check \<open><aPrefix><name> < lo\<close> for
    a constant lower bound \<open>lo\<close> and the check \<open><aPrefix><name> > hi\<close> for a constant
    upper bound \<open>hi\<close>, each left out when the bound is the natural bound of the
    argument's base type;
  \<^item> for every other argument, nothing.
  The natural bounds are those of \<open>numTypeBounds\<close>, entry by entry (255 is the upper
  bound of \<open>u8\<close>). When no check is collected the function writes nothing; otherwise it
  writes one \<open>if\<close> over the checks, joined by \<open>||\<close>, that returns the bad-argument
  status.
\<close>

theorem writeFuncImplArgChecks_spec:
  "(Decorator (XType o') = IDPtr \<longrightarrow> argChecks env o' = [''!'' @ aPrefix env @ Name o']) \<and>
   (Decorator (XType o') \<noteq> IDPtr \<and> \<not> IsRefined (XType o') \<longrightarrow> argChecks env o' = []) \<and>
   (Decorator (XType o') \<noteq> IDPtr \<and> IsRefined (XType o') \<longrightarrow>
      argChecks env o' =
        rangeCheck env o' ''<'' (boundConst (fst (Bounds (XType o'))))
          (map_option fst (naturalBoundsOf (QID (XType o')))) @
        rangeCheck env o' ''>'' (boundConst (snd (Bounds (XType o'))))
          (map_option snd (naturalBoundsOf (QID (XType o'))))) \<and>
   (\<forall>key. key < length numTypeBounds \<longrightarrow>
      numTypeBounds ! key =
        (map_option fst (naturalBounds key), map_option snd (naturalBounds key))) \<and>
   (\<forall>key. \<not> key < length numTypeBounds \<longrightarrow> naturalBounds key = None) \<and>
   snd (numTypeBounds ! IDU8) = Some 255 \<and>
   (concat (map (argChecks env) (InFields n)) = [] \<longrightarrow>
      writeFuncImplArgChecks env g b n = (None, g, b)) \<and>
   (concat (map (argChecks env) (InFields n)) \<noteq> [] \<longrightarrow>
      writeFuncImplArgChecks env g b n =
        (None, g,
         b @ ''if ('' @ joinWith '' || '' (concat (map (argChecks env) (InFields n))) @
           '') {'' @ badArgument g n @ ''}'' @ NL))"
proof (intro conjI impI allI)
  assume "Decorator (XType o') = IDPtr"
  then show "argChecks env o' = [''!'' @ aPrefix env @ Name o']"
    by (simp add: argChecks_def Let_def)
next
  assume "Decorator (XType o') \<noteq> IDPtr \<and> \<not> IsRefined (XType o')"
  then show "argChecks env o' = []"
    by (simp add: argChecks_def Let_def)
next
  assume "Decorator (XType o') \<noteq> IDPtr \<and> IsRefined (XType o')"
  then show "argChecks env o' =
        rangeCheck env o' ''<'' (boundConst (fst (Bounds (XType o'))))
          (map_option fst (naturalBoundsOf (QID (XType o')))) @
        rangeCheck env o' ''>'' (boundConst (snd (Bounds (XType o'))))
          (map_option snd (naturalBoundsOf (QID (XType o'))))"
    by (simp add: argChecks_refined)
next
  fix key :: nat
  assume "key < length numTypeBounds"
  then show "numTypeBounds ! key =
        (map_option fst (naturalBounds key), map_option snd (naturalBounds key))"
    by (simp add: numTypeBounds_length numTypeBounds_nth)
next
  fix key :: nat
  assume "\<not> key < length numTypeBounds"
  then show "naturalBounds key = None"
    by (simp add: numTypeBounds_length naturalBounds_outside)
next
  show "snd (numTypeBounds ! IDU8) = Some 255"
    by (simp add: numTypeBounds_nth naturalBounds_def)
next
  assume "concat (map (argChecks env) (InFields n)) = []"
  then show "writeFuncImplArgChecks env g b n = (None, g, b)"
    by (simp add: writeFuncImplArgChecks_cases)
next
  assume "concat (map (argChecks env) (InFields n)) \<noteq> []"
  then show "writeFuncImplArgChecks env g b n =
        (None, g,
         b @ ''if ('' @ joinWith '' || '' (concat (map (argChecks env) (InFields n))) @
           '') {'' @ badArgument g n @ ''}'' @ NL)"
    by (simp add: writeFuncImplArgChecks_cases)
qed

text \<open>
  The theorem at the four example arguments: \<open>dst\<close> gets a non-null check,
  \<open>x base.u8[0..255]\<close> no check, \<open>y base.u32[0..5]\<close> the upper check alone and
  \<open>z base.i8[-5..127]\<close> the lower check alone; a function of \<open>x\<close> alone gets no
  validation code.
\<close>

lemmas arg_defs = argDst_def argX_def argY_def argZ_def funcOfX_def funcOfAll_def
  literal_def exprData_def boundConst_def naturalBoundsOf_def naturalBounds_def
  rangeCheck_def

theorem writeFuncImplArgChecks_spec_witness:
  "argChecks demoEnv argDst = [''!a_dst''] \<and>
   argChecks demoEnv argX = [] \<and>
   argChecks demoEnv argY = [''a_y > 5''] \<and>
   argChecks demoEnv argZ = [''a_z < -5''] \<and>
   writeFuncImplArgChecks demoEnv freshGen [] funcOfX = (None, freshGen, []) \<and>
   writeFuncImplArgChecks demoEnv freshGen [] funcOfAll =
     (None, freshGen, ''if (!a_dst || a_y > 5 || a_z < -5) {return;}'' @ NL)"
proof -
  note spec = writeFuncImplArgChecks_spec [where env = demoEnv and g = freshGen and b = "[]"]
  have dst: "argChecks demoEnv argDst = [''!a_dst'']"
    using spec [where o' = argDst] by (simp add: arg_defs demoEnv_def)
  have x: "argChecks demoEnv argX = []"
    using spec [where o' = argX] by (simp add: arg_defs demoEnv_def)
  have y: "argChecks demoEnv argY = [''a_y > 5'']"
    using spec [where o' = argY]
    by (simp add: arg_defs demoEnv_def showInt_def showNat_digit digitChar_def)
  have z: "argChecks demoEnv argZ = [''a_z < -5'']"
    using spec [where o' = argZ]
    by (simp add: arg_defs demoEnv_def showInt_def showNat_digit digitChar_def)
  have none: "concat (map (argChecks demoEnv) (InFields funcOfX)) = []"
    by (simp add: funcOfX_def x)
  have some: "concat (map (argChecks demoEnv) (InFields funcOfAll)) =
      [''!a_dst'', ''a_y > 5'', ''a_z < -5'']"
    by (simp add: funcOfAll_def dst x y z)
  have a: "writeFuncImplArgChecks demoEnv freshGen [] funcOfX = (None, freshGen, [])"
    using spec [where n = funcOfX] none by blast
  have "writeFuncImplArgChecks demoEnv freshGen [] funcOfAll =
      (None, freshGen,
       [] @ ''if ('' @ joinWith '' || '' (concat (map (argChecks demoEnv) (InFields funcOfAll))) @
         '') {'' @ badArgument freshGen funcOfAll @ ''}'' @ NL)"
    using spec [where n = funcOfAll] some by simp
  moreover have "badArgument freshGen funcOfAll = ''return;''"
    by (simp add: badArgument_def freshGen_def freshFunk_def funcOfAll_def)
  ultimately have b: "writeFuncImplArgChecks demoEnv freshGen [] funcOfAll =
     (None, freshGen, ''if (!a_dst || a_y > 5 || a_z < -5) {return;}'' @ NL)"
    by (simp add: some)
  from dst x y z a b show ?thesis by simp
qed


end
